theory Spec2Isabelle
  imports Complex_Main "HOL-Library.Monad_Syntax"
begin

section \<open>Data model (types.ts)\<close>

text \<open>
  JavaScript numbers are modelled as mathematical reals: every finite double is a real
  number. The arithmetic of the coordinate transform is read exactly (no rounding, no NaN,
  no infinities); the choice of the aspect ratio, which the rounding of doubles can
  decide, is modelled with that rounding (\<open>roundDouble\<close>). A finite input of the program
  is a value of type \<open>real\<close>.
\<close>

record Box2D =
  ymin :: real
  xmin :: real
  ymax :: real
  xmax :: real

record BoundingBox =
  x_center :: real
  y_center :: real
  width :: real
  height :: real

subsection \<open>Double-precision rounding\<close>

text \<open>
  \<open>roundDouble x\<close> is the double nearest to the real \<open>x\<close>: \<open>x\<close> is brought to 53
  significant binary digits, a tie going to the even significand. The exponent is not
  bounded here, so this is the arithmetic of doubles wherever no overflow to infinity
  and no subnormal result occurs. \<open>expo x\<close> is the binary exponent of \<open>x\<close>, the integer
  \<open>e\<close> with \<open>2^e \<le> |x| < 2^(e+1)\<close>.
\<close>

definition roundHalfEven :: "real \<Rightarrow> int" where
  "roundHalfEven y =
     (let n = \<lfloor>y\<rfloor>; r = y - of_int n
      in if r < 1 / 2 then n else if 1 / 2 < r then n + 1 else if even n then n else n + 1)"

function expo_up :: "real \<Rightarrow> int" where
  "expo_up x = (if x < 2 then 0 else expo_up (x / 2) + 1)"
  by pat_completeness auto
termination
proof (relation "measure (\<lambda>x. nat \<lfloor>x\<rfloor>)")
  show "wf (measure (\<lambda>x. nat \<lfloor>x\<rfloor>))" by simp
next
  fix x :: real assume "\<not> x < 2"
  then have "2 \<le> x" by simp
  then have "\<lfloor>x / 2\<rfloor> < \<lfloor>x\<rfloor>" by linarith
  moreover have "0 < \<lfloor>x\<rfloor>" using \<open>2 \<le> x\<close> by linarith
  ultimately show "(x / 2, x) \<in> measure (\<lambda>x. nat \<lfloor>x\<rfloor>)" by simp
qed

function expo_down :: "real \<Rightarrow> int" where
  "expo_down x = (if x \<le> 0 \<or> 1 \<le> x then 0 else expo_down (2 * x) - 1)"
  by pat_completeness auto
termination
proof (relation "measure (\<lambda>x. nat \<lceil>1 / x\<rceil>)")
  show "wf (measure (\<lambda>x. nat \<lceil>1 / x\<rceil>))" by simp
next
  fix x :: real assume "\<not> (x \<le> 0 \<or> 1 \<le> x)"
  then have x: "0 < x" "x < 1" by simp_all
  then have y: "1 < 1 / x" by simp
  have c2: "2 \<le> \<lceil>1 / x\<rceil>" using y by linarith
  have "1 / x \<le> of_int \<lceil>1 / x\<rceil>" by (rule le_of_int_ceiling)
  then have "1 / (2 * x) \<le> of_int \<lceil>1 / x\<rceil> / 2" by simp
  also have "\<dots> \<le> of_int \<lceil>1 / x\<rceil> - 1" using c2 by simp
  finally have "\<lceil>1 / (2 * x)\<rceil> < \<lceil>1 / x\<rceil>" by (simp add: ceiling_less_iff)
  moreover have "0 < \<lceil>1 / x\<rceil>" using y by linarith
  ultimately show "(2 * x, x) \<in> measure (\<lambda>x. nat \<lceil>1 / x\<rceil>)" by simp
qed

declare expo_up.simps [simp del] expo_down.simps [simp del]

definition expo :: "real \<Rightarrow> int" where
  "expo x = (if 1 \<le> \<bar>x\<bar> then expo_up \<bar>x\<bar> else expo_down \<bar>x\<bar>)"

definition roundDouble :: "real \<Rightarrow> real" where
  "roundDouble x =
     (if x = 0 then 0
      else let q = 2 powi (expo x - 52)
           in sgn x * of_int (roundHalfEven (\<bar>x\<bar> / q)) * q)"

section \<open>Coordinate transform (utils/yoloUtils.ts)\<close>

text \<open>\<open>Math.max(0, Math.min(1, v))\<close>, which the source applies to each output field.\<close>

definition clamp01 :: "real \<Rightarrow> real" where
  "clamp01 v = max 0 (min 1 v)"

text \<open>\<open>const scale = box.ymax > 1 ? 1000 : 1\<close>\<close>

definition detectScale :: "Box2D \<Rightarrow> real" where
  "detectScale box = (if ymax box > 1 then 1000 else 1)"

text \<open>
  The image dimensions are parameters of the source function and are never read by it.
\<close>

definition convertGeminiBoxToYolo :: "Box2D \<Rightarrow> real \<Rightarrow> real \<Rightarrow> BoundingBox" where
  "convertGeminiBoxToYolo box imgWidth imgHeight =
     (let scale = detectScale box;
          ymin' = ymin box / scale;
          xmin' = xmin box / scale;
          ymax' = ymax box / scale;
          xmax' = xmax box / scale;
          boxWidth = xmax' - xmin';
          boxHeight = ymax' - ymin';
          xCenter = xmin' + (boxWidth / 2);
          yCenter = ymin' + (boxHeight / 2)
      in \<lparr> x_center = clamp01 xCenter,
           y_center = clamp01 yCenter,
           width = clamp01 boxWidth,
           height = clamp01 boxHeight \<rparr>)"

text \<open>
  An exception thrown by the program or by a built-in it calls, with its message.
\<close>

datatype js_error = TypeError string | Error string

text \<open>The \<open>message\<close> property of a thrown error.\<close>

fun message :: "js_error \<Rightarrow> string" where
  "message (TypeError m) = m"
| "message (Error m) = m"

text \<open>
  \<open>Array.prototype.reduce\<close> called without an initial value: the first element seeds the
  accumulator and the callback runs on the remaining elements from left to right; on an
  empty array the built-in throws a \<open>TypeError\<close>.
\<close>

fun reduce :: "('a \<Rightarrow> 'a \<Rightarrow> 'a) \<Rightarrow> 'a list \<Rightarrow> js_error + 'a" where
  "reduce f [] = Inl (TypeError ''Reduce of empty array with no initial value'')"
| "reduce f (x # xs) = Inr (foldl f x xs)"

record RatioEntry =
  key :: string
  value' :: real

text \<open>
  A numeric literal of the source denotes the double nearest to it (\<open>1.0\<close>, \<open>0.75\<close> and
  \<open>0.5625\<close> are doubles themselves; \<open>1.333\<close> and \<open>1.777\<close> are not).
\<close>

definition ratios :: "RatioEntry list" where
  "ratios =
     [ \<lparr> key = ''1:1'', value' = roundDouble 1.0 \<rparr>,
       \<lparr> key = ''3:4'', value' = roundDouble 0.75 \<rparr>,
       \<lparr> key = ''4:3'', value' = roundDouble 1.333 \<rparr>,
       \<lparr> key = ''9:16'', value' = roundDouble 0.5625 \<rparr>,
       \<lparr> key = ''16:9'', value' = roundDouble 1.777 \<rparr> ]"

text \<open>
  \<open>Math.abs(a - b)\<close> on doubles: the difference is rounded to a double, its absolute
  value is exact.
\<close>

definition absDiff :: "real \<Rightarrow> real \<Rightarrow> real" where
  "absDiff a b = \<bar>roundDouble (a - b)\<bar>"

text \<open>The callback handed to \<open>reduce\<close>: keep \<open>prev\<close> unless \<open>curr\<close> (here \<open>curr'\<close>) is strictly closer.\<close>

definition closer :: "real \<Rightarrow> RatioEntry \<Rightarrow> RatioEntry \<Rightarrow> RatioEntry" where
  "closer targetRatio prev curr' =
     (if absDiff (value' curr') targetRatio < absDiff (value' prev) targetRatio
      then curr' else prev)"

text \<open>
  Here the rounding of doubles is modelled, because it decides the result where two
  entries are equally near: the quotient, the two literals and each difference are
  rounded as the source computes them.
\<close>

definition getGeminiAspectRatio :: "real \<Rightarrow> real \<Rightarrow> js_error + string" where
  "getGeminiAspectRatio width' height' =
     (let targetRatio = roundDouble (width' / height')
      in case reduce (closer targetRatio) ratios of
           Inl e \<Rightarrow> Inl e
         | Inr r \<Rightarrow> Inr (key r))"

subsection \<open>Numbers as text\<close>

text \<open>
  The decimal digits of a natural number, most significant first, with no leading zero
  (\<open>0\<close> is the single digit \<open>0\<close>).
\<close>

definition digit_char :: "nat \<Rightarrow> char" where
  "digit_char d = ''0123456789'' ! d"

fun decimal :: "nat \<Rightarrow> string" where
  "decimal n = (if n < 10 then [digit_char n] else decimal (n div 10) @ [digit_char (n mod 10)])"

declare decimal.simps [simp del]

text \<open>
  A template literal \<open>${n}\<close> applies \<open>Number::toString\<close>. A non-negative integer up to
  \<open>2^53\<close> is a double and prints as its plain decimal form. Above \<open>2^53\<close> not every
  integer is a double and JavaScript prints the shortest digits that read back as the
  same double (\<open>2^64\<close> prints as 18446744073709552000), and from \<open>10^21\<close> on it uses
  exponent notation; neither is expanded here (\<open>None\<close>).
\<close>

definition Number_toString :: "nat \<Rightarrow> string option" where
  "Number_toString n = (if n \<le> 2 ^ 53 then Some (decimal n) else None)"

text \<open>
  \<open>Number.prototype.toFixed\<close>, following the steps of the language standard: the sign is
  split off; \<open>n\<close> is the integer for which \<open>n / 10^f\<close> is closest to \<open>x\<close>, the larger one
  on a tie; its digits are padded with zeros on the left to at least \<open>f + 1\<close> characters
  and the point is placed before the last \<open>f\<close>. The standard's two other exits are not
  expanded (\<open>None\<close>): more than 100 fraction digits (a \<open>RangeError\<close>) and a magnitude of
  \<open>10^21\<close> or more (exponent notation). The program calls it with \<open>f = 6\<close> only.
\<close>

definition toFixed :: "real \<Rightarrow> nat \<Rightarrow> string option" where
  "toFixed x0 f =
     (let s = (if x0 < 0 then ''-'' else []);
          x = (if x0 < 0 then - x0 else x0)
      in if 100 < f \<or> 10 ^ 21 \<le> x then None
         else
           let n = nat \<lfloor>x * 10 ^ f + 1 / 2\<rfloor>;
               m = decimal n;
               m = (if f \<noteq> 0 then
                      (let k = length m;
                           z = replicate (f + 1 - k) CHR ''0'';
                           m = (if k \<le> f then z @ m else m);
                           k = (if k \<le> f then f + 1 else k);
                           a = take (k - f) m;
                           b = drop (k - f) m
                       in a @ ''.'' @ b)
                    else m)
           in Some (s @ m))"

definition formatYoloLine :: "nat \<Rightarrow> BoundingBox \<Rightarrow> string option" where
  "formatYoloLine classId bbox =
     do {
       c \<leftarrow> Number_toString classId;
       xc \<leftarrow> toFixed (x_center bbox) 6;
       yc \<leftarrow> toFixed (y_center bbox) 6;
       w \<leftarrow> toFixed (width bbox) 6;
       h \<leftarrow> toFixed (height bbox) 6;
       Some (c @ '' '' @ xc @ '' '' @ yc @ '' '' @ w @ '' '' @ h)
     }"

text \<open>
  Reading a digit string back, used to say what a rendered number denotes.
\<close>

definition digit_of :: "char \<Rightarrow> nat" where
  "digit_of c = of_char c - 48"

definition digits_value :: "string \<Rightarrow> nat" where
  "digits_value s = foldl (\<lambda>acc c. 10 * acc + digit_of c) 0 s"

text \<open>
  \<open>six_decimals v s\<close>: the text \<open>s\<close> is a non-empty run of digits, a point and exactly six
  digits, and the number it denotes is within half a millionth of \<open>v\<close>.
\<close>

definition six_decimals :: "real \<Rightarrow> string \<Rightarrow> bool" where
  "six_decimals v s \<longleftrightarrow>
     (\<exists>ip fp. s = ip @ ''.'' @ fp \<and> ip \<noteq> [] \<and> length fp = 6 \<and>
        set (ip @ fp) \<subseteq> set ''0123456789'' \<and>
        \<bar>real (digits_value (ip @ fp)) / 10 ^ 6 - v\<bar> \<le> 1 / (2 * 10 ^ 6))"

text \<open>
  The last \<open>j\<close> decimal digits of \<open>n\<close>, with leading zeros.
\<close>

fun fixed_digits :: "nat \<Rightarrow> nat \<Rightarrow> string" where
  "fixed_digits 0 n = []"
| "fixed_digits (Suc j) n = fixed_digits j (n div 10) @ [digit_char (n mod 10)]"

text \<open>
  \<open>sixDecimals v\<close> follows the words of the specification for a non-negative \<open>v\<close>: the
  number with six decimals. With \<open>n\<close> the number of millionths nearest to \<open>v\<close> (the
  larger one on a tie), it is the whole part \<open>n div 10^6\<close> in decimal, a point, and the
  six digits of \<open>n mod 10^6\<close>.
\<close>

definition sixDecimals :: "real \<Rightarrow> string" where
  "sixDecimals v =
     (let n = nat \<lfloor>v * 10 ^ 6 + 1 / 2\<rfloor>
      in decimal (n div 10 ^ 6) @ ''.'' @ fixed_digits 6 n)"

section \<open>Promises and the outside world\<close>

text \<open>
  What awaiting a promise yields: its value, the error it rejects with, or nothing at all
  when it never settles (the awaiting code is then never resumed).
\<close>

datatype 'a promise = Resolved 'a | Rejected js_error | Pending

subsection \<open>Image normalization (utils/yoloUtils.ts)\<close>

text \<open>
  The browser as \<open>resizeImage\<close> sees it: whether assigning the data URL to an \<open>Image\<close>
  ends in its \<open>load\<close> event (\<open>decodes\<close>; otherwise the \<open>error\<close> event fires),
  whether \<open>canvas.getContext('2d')\<close> returns a context, and the JPEG data URL that
  \<open>toDataURL\<close> produces for a source stretched onto a canvas of the given size.
\<close>

record Browser =
  decodes :: "string \<Rightarrow> bool"
  context2d :: bool
  toDataURL :: "string \<Rightarrow> real \<Rightarrow> real \<Rightarrow> string"

text \<open>
  The promise is built from \<open>resolve\<close> alone and only \<open>img.onload\<close> is assigned: when the
  image does not load, no handler runs and the promise stays pending.
\<close>

definition resizeImage :: "Browser \<Rightarrow> string \<Rightarrow> real \<Rightarrow> real \<Rightarrow> string promise" where
  "resizeImage browser base64Str targetWidth targetHeight =
     (if decodes browser base64Str then
        (if context2d browser
         then Resolved (toDataURL browser base64Str targetWidth targetHeight)
         else Resolved base64Str)
      else Pending)"

subsection \<open>Generation client (services/geminiService.ts)\<close>

text \<open>
  The request sent to the service (prompt text, reference image, aspect ratio) only
  influences the service's answer, and the answer is a parameter here. For the image
  model it is the list of parts of the first candidate, each with its
  \<open>inlineData.data\<close> if it has one; a missing candidate or content is the empty list.
\<close>

definition truthy_data :: "string option \<Rightarrow> bool" where
  "truthy_data p = (case p of None \<Rightarrow> False | Some d \<Rightarrow> d \<noteq> [])"

definition generateDroneView :: "string option list promise \<Rightarrow> string \<Rightarrow> string promise" where
  "generateDroneView response apiKey' =
     (if apiKey' = [] then Rejected (Error ''API Key is missing'')
      else case response of
             Pending \<Rightarrow> Pending
           | Rejected e \<Rightarrow> Rejected e
           | Resolved parts \<Rightarrow>
               (case List.find truthy_data parts of
                  Some (Some d) \<Rightarrow> Resolved (''data:image/jpeg;base64,'' @ d)
                | _ \<Rightarrow> Rejected (Error ''No image data returned from model.'')))"

text \<open>
  For the detection model the answer is \<open>response.text\<close> as \<open>JSON.parse\<close> reads it:
  \<open>None\<close> when the text is absent or empty, \<open>Some (Inl e)\<close> when parsing throws \<open>e\<close>,
  \<open>Some (Inr box)\<close> when it yields \<open>box\<close>.
\<close>

definition detectObjectBBox :: "(js_error + Box2D) option promise \<Rightarrow> string \<Rightarrow> Box2D promise" where
  "detectObjectBBox response apiKey' =
     (if apiKey' = [] then Rejected (Error ''API Key is missing'')
      else case response of
             Pending \<Rightarrow> Pending
           | Rejected e \<Rightarrow> Rejected e
           | Resolved text' \<Rightarrow>
               (case text' of
                  None \<Rightarrow> Rejected (Error ''No text response for detection'')
                | Some (Inl e) \<Rightarrow> Rejected e
                | Some (Inr box) \<Rightarrow> Resolved box))"

section \<open>The application (types.ts, App.tsx)\<close>

definition LightingCondition_values :: "string list" where
  "LightingCondition_values =
     [ ''Sunny, harsh shadows'', ''Overcast, soft lighting'', ''Sunset, golden hour'',
       ''Night, artificial street lighting'' ]"

definition WeatherCondition_values :: "string list" where
  "WeatherCondition_values =
     [ ''Clear, high visibility'',
       ''Foggy, heavy smog, atmospheric haze, low visibility'',
       ''Dusty, sandstorm, particulate matter in air, yellow tint'',
       ''Rainy, wet surfaces, puddles, falling droplets'',
       ''Cloudy, overcast sky'' ]"

definition BackgroundType_values :: "string list" where
  "BackgroundType_values =
     [ ''Urban street, asphalt'',
       ''Construction site, cranes, raw materials, dirt, unfinished structures'',
       ''Green grass field'', ''Dirt ground, dry earth'', ''Concrete pavement'',
       ''Snowy ground'', ''Sandy desert'' ]"

definition ALTITUDE_OPTIONS :: "string list" where
  "ALTITUDE_OPTIONS = [ ''Low (10m)'', ''Medium (30m)'', ''High (50m)'', ''Very High (100m)'' ]"

text \<open>The degree sign of the source is written as its two UTF-8 bytes.\<close>

definition degree :: string where
  "degree = [CHR 0xC2, CHR 0xB0]"

definition ANGLE_OPTIONS :: "string list" where
  "ANGLE_OPTIONS =
     [ ''Top-down (90'' @ degree @ '')'', ''Steep (75'' @ degree @ '')'',
       ''High Angle (60'' @ degree @ '')'', ''Standard (45'' @ degree @ '')'',
       ''Low Angle (30'' @ degree @ '')'', ''Grazing (15'' @ degree @ '')'' ]"

text \<open>
  The fields of \<open>GenerationConfig\<close> carry a prime where the name is already a field of
  another record of this theory.
\<close>

record GenerationConfig =
  count :: nat
  width' :: real
  height' :: real
  lighting' :: string
  background' :: string
  altitude' :: string
  angle' :: string
  weather' :: string

text \<open>
  The metadata of an item holds what \<open>sample\<close> returned. An array read outside its bounds
  yields \<open>undefined\<close> in JavaScript, written \<open>None\<close> here.
\<close>

record Metadata =
  lighting :: "string option"
  background :: "string option"
  altitude :: "string option"
  angle :: "string option"
  weather :: "string option"

datatype Status = pending | generating | detecting | completed | failed

record GeneratedData =
  id' :: string
  imageUrl :: string
  bbox :: "BoundingBox option"
  status :: Status
  error :: "string option"
  metadata :: Metadata

record Progress =
  current :: nat
  total :: nat

text \<open>The state of the \<open>App\<close> component, one field for each \<open>useState\<close>.\<close>

record AppState =
  apiKey :: string
  referenceImg :: "string option"
  objectLabel :: string
  classId :: nat
  isProcessing :: bool
  generatedItems :: "GeneratedData list"
  progress :: "Progress option"
  selectedAngles :: "string list"
  config :: GenerationConfig

definition initialSelectedAngles :: "string list" where
  "initialSelectedAngles = [ ''Standard (45'' @ degree @ '')'' ]"

definition toggleAngle :: "string \<Rightarrow> string list \<Rightarrow> string list" where
  "toggleAngle a prev = (if a \<in> set prev then filter (\<lambda>x. x \<noteq> a) prev else prev @ [a])"

text \<open>
  \<open>sample\<close>: \<open>arr[Math.floor(Math.random() * arr.length)]\<close>, with the value of
  \<open>Math.random()\<close> as first argument.
\<close>

definition sample :: "real \<Rightarrow> 'a list \<Rightarrow> 'a option" where
  "sample r arr =
     (let i = \<lfloor>r * real (length arr)\<rfloor>
      in if 0 \<le> i \<and> i < int (length arr) then Some (arr ! nat i) else None)"

text \<open>
  The world a run of \<open>generateDataset\<close> meets: the successive values of \<open>Math.random()\<close>,
  the value of \<open>Date.now()\<close> in each iteration, and for each iteration the answers of the
  two models and the behaviour of the browser.
\<close>

record Env =
  mathRandom :: "nat \<Rightarrow> real"
  dateNow :: "nat \<Rightarrow> nat"
  imageModel :: "nat \<Rightarrow> string option list promise"
  detectionModel :: "nat \<Rightarrow> (js_error + Box2D) option promise"
  browser :: "nat \<Rightarrow> Browser"

text \<open>
  \<open>config.axis === 'Random' ? sample(values) : config.axis\<close>; the second component counts
  the calls of \<open>Math.random()\<close> made so far.
\<close>

definition resolveAxis :: "Env \<Rightarrow> string \<Rightarrow> string list \<Rightarrow> nat \<Rightarrow> string option \<times> nat" where
  "resolveAxis env chosen values k =
     (if chosen = ''Random'' then (sample (mathRandom env k) values, Suc k)
      else (Some chosen, k))"

text \<open>
  \<open>setGeneratedItems(prev => prev.map(item => item.id === id ? {...item, ...} : item))\<close>
\<close>

definition updateItem ::
  "string \<Rightarrow> (GeneratedData \<Rightarrow> GeneratedData) \<Rightarrow> GeneratedData list \<Rightarrow> GeneratedData list" where
  "updateItem i f prev = map (\<lambda>item. if id' item = i then f item else item) prev"

text \<open>
  \<open>`img_${Date.now()}_${i}`\<close>: both numbers are non-negative integers below \<open>2^53\<close>
  (a time value is at most 8.64 * 10^15) and print in plain decimal.
\<close>

definition itemId :: "Env \<Rightarrow> nat \<Rightarrow> string" where
  "itemId env i = ''img_'' @ decimal (dateNow env i) @ ''_'' @ decimal i"

text \<open>
  The item created at the top of iteration \<open>i\<close>, and the number of \<open>Math.random()\<close> calls
  after it. \<open>cap\<close> is the state captured by the closure when the run was started: the
  loop reads \<open>config\<close>, \<open>selectedAngles\<close>, \<open>apiKey\<close> and \<open>referenceImg\<close> from it.
\<close>

definition newItem :: "Env \<Rightarrow> AppState \<Rightarrow> nat \<Rightarrow> nat \<Rightarrow> GeneratedData \<times> nat" where
  "newItem env cap i k0 =
     (let (lighting, k1) = resolveAxis env (lighting' (config cap)) LightingCondition_values k0;
          (background, k2) = resolveAxis env (background' (config cap)) BackgroundType_values k1;
          (altitude, k3) = resolveAxis env (altitude' (config cap)) ALTITUDE_OPTIONS k2;
          (weather, k4) = resolveAxis env (weather' (config cap)) WeatherCondition_values k3;
          angle = sample (mathRandom env k4) (selectedAngles cap)
      in (\<lparr> id' = itemId env i,
            imageUrl = [],
            bbox = None,
            status = generating,
            error = None,
            metadata = \<lparr> lighting = lighting, background = background, altitude = altitude,
                         angle = angle, weather = weather \<rparr> \<rparr>,
          Suc k4))"

text \<open>
  The \<open>try\<close> block of iteration \<open>i\<close> with its \<open>catch\<close>, on the item list: \<open>Inr\<close> is the
  list when the block is left (normally or through the handler), \<open>Inl\<close> the list at the
  moment an awaited promise fails to settle.
\<close>

definition failItem :: "string \<Rightarrow> js_error \<Rightarrow> GeneratedData list \<Rightarrow> GeneratedData list" where
  "failItem i err prev =
     updateItem i (\<lambda>item. item\<lparr> status := failed, error := Some (message err) \<rparr>) prev"

definition tryItem ::
  "Env \<Rightarrow> AppState \<Rightarrow> nat \<Rightarrow> GeneratedData list \<Rightarrow> GeneratedData list + GeneratedData list" where
  "tryItem env cap i items =
     (case generateDroneView (imageModel env i) (apiKey cap) of
        Pending \<Rightarrow> Inl items
      | Rejected err \<Rightarrow> Inr (failItem (itemId env i) err items)
      | Resolved rawDroneImage \<Rightarrow>
          (case resizeImage (browser env i) rawDroneImage
                  (width' (config cap)) (height' (config cap)) of
             Pending \<Rightarrow> Inl items
           | Rejected err \<Rightarrow> Inr (failItem (itemId env i) err items)
           | Resolved resizedImage \<Rightarrow>
               (let items1 = updateItem (itemId env i)
                               (\<lambda>item. item\<lparr> imageUrl := resizedImage, status := detecting \<rparr>)
                               items
                in case detectObjectBBox (detectionModel env i) (apiKey cap) of
                     Pending \<Rightarrow> Inl items1
                   | Rejected err \<Rightarrow> Inr (failItem (itemId env i) err items1)
                   | Resolved box2d \<Rightarrow>
                       (let yoloBBox = convertGeminiBoxToYolo box2d
                                         (width' (config cap)) (height' (config cap))
                        in Inr (updateItem (itemId env i)
                                  (\<lambda>item. item\<lparr> bbox := Some yoloBBox, status := completed \<rparr>)
                                  items1)))))"

text \<open>
  How a call of \<open>generateDataset\<close> ends: its promise resolves, it rejects with an error,
  or the function stays suspended at an \<open>await\<close> for ever.
\<close>

datatype Outcome = Returned | Threw js_error | Suspended

text \<open>
  What a call leaves behind: the component state, the messages shown with \<open>alert\<close>, and
  how the call ended.
\<close>

record Run =
  final :: AppState
  alerts :: "string list"
  outcome :: Outcome

text \<open>
  The \<open>for\<close> loop from index \<open>i\<close> on, with \<open>k\<close> calls of \<open>Math.random()\<close> made so far, and
  the statement after it.
\<close>

function itemLoop :: "Env \<Rightarrow> AppState \<Rightarrow> nat \<Rightarrow> nat \<Rightarrow> AppState \<Rightarrow> Run" where
  "itemLoop env cap i k st =
     (if i < count (config cap) then
        (let (item, k') = newItem env cap i k;
             st1 = st\<lparr> generatedItems := generatedItems st @ [item] \<rparr>
         in case tryItem env cap i (generatedItems st1) of
              Inl items \<Rightarrow>
                \<lparr> final = st1\<lparr> generatedItems := items \<rparr>, alerts = [], outcome = Suspended \<rparr>
            | Inr items \<Rightarrow>
                itemLoop env cap (Suc i) k'
                  (st1\<lparr> generatedItems := items,
                        progress := Some \<lparr> current = i + 1, total = count (config cap) \<rparr> \<rparr>))
      else \<lparr> final = st\<lparr> isProcessing := False \<rparr>, alerts = [], outcome = Returned \<rparr>)"
  by pat_completeness auto
termination
  by (relation "measure (\<lambda>(env, cap, i, k, st). count (config cap) - i)") auto

text \<open>\<open>!s\<close> for a value of type \<open>string | null\<close>: true for \<open>null\<close> and for the empty string.\<close>

definition falsy :: "string option \<Rightarrow> bool" where
  "falsy s = (case s of None \<Rightarrow> True | Some v \<Rightarrow> v = [])"

definition generateDataset :: "Env \<Rightarrow> AppState \<Rightarrow> Run" where
  "generateDataset env st =
     (if falsy (referenceImg st) \<or> apiKey st = [] then
        \<lparr> final = st, alerts = [], outcome = Returned \<rparr>
      else if length (selectedAngles st) = 0 then
        \<lparr> final = st, alerts = [''Please select at least one camera angle.''],
          outcome = Returned \<rparr>
      else
        (let st1 = st\<lparr> isProcessing := True,
                       generatedItems := [],
                       progress := Some \<lparr> current = 0, total = count (config st) \<rparr> \<rparr>
         in case getGeminiAspectRatio (width' (config st)) (height' (config st)) of
              Inl e \<Rightarrow> \<lparr> final = st1, alerts = [], outcome = Threw e \<rparr>
            | Inr aspectRatio \<Rightarrow> itemLoop env st 0 0 st1))"

subsection \<open>Export\<close>

text \<open>\<open>s.split(c)\<close> for a one-character separator.\<close>

fun split :: "char \<Rightarrow> string \<Rightarrow> string list" where
  "split c [] = [] # []"
| "split c (x # xs) =
     (if x = c then [] # split c xs
      else (case split c xs of
              [] \<Rightarrow> [x] # []
            | y # ys \<Rightarrow> (x # y) # ys))"

text \<open>\<open>arr[i]\<close>, \<open>undefined\<close> (\<open>None\<close>) outside the array.\<close>

definition at_index :: "'a list \<Rightarrow> nat \<Rightarrow> 'a option" where
  "at_index arr i = (if i < length arr then Some (arr ! i) else None)"

text \<open>
  The archive under construction is the sequence of \<open>folder\<close> and \<open>file\<close> calls made on
  it, each file with its full path. The content of a file is \<open>None\<close> where the program
  passes \<open>undefined\<close>, or a number that is not expanded here (see \<open>Number_toString\<close>).
\<close>

datatype ZipEntry = Folder string | File string "string option"

definition newline :: string where
  "newline = [CHR 0x0A]"

definition quote :: string where
  "quote = [CHR 0x27]"

text \<open>
  The manifest. \<open>classId + 1\<close> is a sum of doubles, exact while it stays within \<open>2^53\<close>;
  beyond that the manifest is not expanded (\<open>None\<close>).
\<close>

definition dataYaml :: "nat \<Rightarrow> string \<Rightarrow> string option" where
  "dataYaml cid label =
     do {
       nc \<leftarrow> Number_toString (cid + 1);
       c \<leftarrow> Number_toString cid;
       Some (newline @ ''train: ../train/images'' @ newline @ ''val: ../valid/images'' @ newline
             @ newline @ ''nc: '' @ nc @ newline
             @ ''names: {'' @ c @ '': '' @ quote @ label @ quote @ ''}'' @ newline @ ''    '')
     }"

text \<open>The body of the \<open>forEach\<close>: the image file, then the label file if the item has a box.\<close>

definition itemFiles :: "nat \<Rightarrow> GeneratedData \<Rightarrow> ZipEntry list" where
  "itemFiles cid item =
     (let imgData = at_index (split CHR '','' (imageUrl item)) 1
      in File (''images/'' @ id' item @ ''.jpg'') imgData #
         (case bbox item of
            Some b \<Rightarrow> [File (''labels/'' @ id' item @ ''.txt'') (formatYoloLine cid b)]
          | None \<Rightarrow> []))"

text \<open>
  \<open>handleDownloadZip\<close> returns what is handed to \<open>saveAs\<close>, the file name and the archive,
  or \<open>None\<close> when it returns before writing anything.
\<close>

definition handleDownloadZip :: "AppState \<Rightarrow> (string \<times> ZipEntry list) option" where
  "handleDownloadZip st =
     (let completedItems =
            filter (\<lambda>i. status i = completed \<and> bbox i \<noteq> None) (generatedItems st)
      in if length completedItems = 0 then None
         else Some (''yolo_drone_dataset.zip'',
                    [Folder ''images'', Folder ''labels'',
                     File ''data.yaml'' (dataYaml (classId st) (objectLabel st))]
                    @ concat (map (itemFiles (classId st)) completedItems)))"

text \<open>The paths of the files of an archive, in the order they were written.\<close>

fun filePaths :: "ZipEntry list \<Rightarrow> string list" where
  "filePaths [] = []"
| "filePaths (Folder p # es) = filePaths es"
| "filePaths (File p c # es) = p # filePaths es"

section \<open>Example inputs\<close>

text \<open>
  A world in which the image model fails for the item of index 2 and every other call
  succeeds, and a component state asking for five items.
\<close>

definition exampleEnv :: Env where
  "exampleEnv =
     \<lparr> mathRandom = (\<lambda>k. if even k then 0.25 else 0.75),
       dateNow = (\<lambda>i. 1700000000000 + i),
       imageModel = (\<lambda>i. if i = 2 then Rejected (Error ''503 Service Unavailable'')
                          else Resolved [None, Some ''QUJD'']),
       detectionModel =
         (\<lambda>i. Resolved (Some (Inr \<lparr> ymin = 100, xmin = 200, ymax = 500, xmax = 600 \<rparr>))),
       browser = (\<lambda>i. \<lparr> decodes = (\<lambda>s. True), context2d = True,
                          toDataURL = (\<lambda>s w h. ''data:image/jpeg;base64,UkVTSVpFRA=='') \<rparr>) \<rparr>"

text \<open>
  The same world with a browser that cannot decode the images it is given, and with the
  image model answering every call.
\<close>

definition undecodableEnv :: Env where
  "undecodableEnv =
     exampleEnv
       \<lparr> imageModel := (\<lambda>i. Resolved [None, Some ''QUJD'']),
         browser := (\<lambda>i. \<lparr> decodes = (\<lambda>s. False), context2d = True,
                            toDataURL = (\<lambda>s w h. ''data:image/jpeg;base64,UkVTSVpFRA=='') \<rparr>) \<rparr>"

definition exampleState :: AppState where
  "exampleState =
     \<lparr> apiKey = ''secret'',
       referenceImg = Some ''data:image/png;base64,iVBORw0KGgo='',
       objectLabel = ''car'',
       classId = 0,
       isProcessing = False,
       generatedItems = [],
       progress = None,
       selectedAngles = initialSelectedAngles,
       config = \<lparr> count = 5, width' = 640, height' = 640, lighting' = ''Random'',
                  background' = ''Random'', altitude' = ''Random'', angle' = ''Random'',
                  weather' = ''Random'' \<rparr> \<rparr>"

text \<open>Three items as a run may leave them: completed with a box, completed without, failed.\<close>

definition exampleMetadata :: Metadata where
  "exampleMetadata =
     \<lparr> lighting = Some ''Sunset, golden hour'', background = Some ''Snowy ground'',
       altitude = Some ''Low (10m)'', angle = Some (''Standard (45'' @ degree @ '')''),
       weather = Some ''Cloudy, overcast sky'' \<rparr>"

definition exampleItems :: "GeneratedData list" where
  "exampleItems =
     [ \<lparr> id' = ''img_1700000000000_0'', imageUrl = ''data:image/jpeg;base64,QQ=='',
         bbox = Some \<lparr> x_center = 0.5, y_center = 0.5, width = 0.25, height = 0.5 \<rparr>,
         status = completed, error = None, metadata = exampleMetadata \<rparr>,
       \<lparr> id' = ''img_1700000000001_1'', imageUrl = ''data:image/jpeg;base64,Qg=='',
         bbox = None, status = completed, error = None, metadata = exampleMetadata \<rparr>,
       \<lparr> id' = ''img_1700000000002_2'', imageUrl = [],
         bbox = None, status = failed, error = Some ''503 Service Unavailable'',
         metadata = exampleMetadata \<rparr> ]"

section \<open>Notions used to state the properties of a run\<close>

declare itemLoop.simps [simp del]

text \<open>
  \<open>itemSettles env cap i\<close>: every promise awaited in iteration \<open>i\<close> settles (resolves or
  rejects), so the iteration is not suspended for ever.
\<close>

definition itemSettles :: "Env \<Rightarrow> AppState \<Rightarrow> nat \<Rightarrow> bool" where
  "itemSettles env cap i =
     (case generateDroneView (imageModel env i) (apiKey cap) of
        Pending \<Rightarrow> False
      | Rejected e \<Rightarrow> True
      | Resolved raw \<Rightarrow>
          (case resizeImage (browser env i) raw (width' (config cap)) (height' (config cap)) of
             Pending \<Rightarrow> False
           | Rejected e \<Rightarrow> True
           | Resolved resized \<Rightarrow>
               (case detectObjectBBox (detectionModel env i) (apiKey cap) of
                  Pending \<Rightarrow> False
                | _ \<Rightarrow> True)))"

text \<open>
  \<open>itemAsSpecified env cap i x\<close> follows the words of the specification for the item of
  index \<open>i\<close>: when synthesis fails, or synthesis succeeds and detection fails, the item is
  \<open>failed\<close> and carries the message of that error; when both succeed it is \<open>completed\<close>,
  carries the converted box and no error.
\<close>

definition itemAsSpecified :: "Env \<Rightarrow> AppState \<Rightarrow> nat \<Rightarrow> GeneratedData \<Rightarrow> bool" where
  "itemAsSpecified env cap i x =
     (case generateDroneView (imageModel env i) (apiKey cap) of
        Pending \<Rightarrow> False
      | Rejected e \<Rightarrow> status x = failed \<and> error x = Some (message e)
      | Resolved raw \<Rightarrow>
          (case detectObjectBBox (detectionModel env i) (apiKey cap) of
             Pending \<Rightarrow> False
           | Rejected e \<Rightarrow> status x = failed \<and> error x = Some (message e)
           | Resolved box \<Rightarrow>
               status x = completed \<and> error x = None \<and>
               bbox x = Some (convertGeminiBoxToYolo box
                                (width' (config cap)) (height' (config cap)))))"

section \<open>Properties of the coordinate transform\<close>

lemma clamp01_range: "0 \<le> clamp01 v \<and> clamp01 v \<le> 1"
  by (simp add: clamp01_def)

text \<open>
  Claim C2. For every finite raw detection box, whatever its values (out of range,
  negative, or with \<open>xmin > xmax\<close>), the conversion returns a box, and each of the four
  fields of that box lies in the closed interval from 0 to 1.
\<close>

theorem convert_fields_in_unit_interval:
  "0 \<le> x_center (convertGeminiBoxToYolo box w h) \<and> x_center (convertGeminiBoxToYolo box w h) \<le> 1 \<and>
   0 \<le> y_center (convertGeminiBoxToYolo box w h) \<and> y_center (convertGeminiBoxToYolo box w h) \<le> 1 \<and>
   0 \<le> width (convertGeminiBoxToYolo box w h) \<and> width (convertGeminiBoxToYolo box w h) \<le> 1 \<and>
   0 \<le> height (convertGeminiBoxToYolo box w h) \<and> height (convertGeminiBoxToYolo box w h) \<le> 1"
  by (simp add: convertGeminiBoxToYolo_def Let_def clamp01_range)

text \<open>
  Claim C1. The scale is chosen by looking at \<open>ymax\<close> alone. When \<open>ymax \<le> 1\<close> the four
  fields enter the computation unchanged; when \<open>ymax > 1\<close> each of the four is divided by
  1000. From the scaled fields the function takes width = xmax - xmin,
  height = ymax - ymin, x_center = xmin + width / 2 and y_center = ymin + height / 2
  (each then clamped, see C2).
\<close>

theorem convert_scale_by_ymax:
  "(ymax a = ymax b \<longrightarrow> detectScale a = detectScale b) \<and>
   (ymax box \<le> 1 \<longrightarrow>
      convertGeminiBoxToYolo box w h =
        \<lparr> x_center = clamp01 (xmin box + (xmax box - xmin box) / 2),
          y_center = clamp01 (ymin box + (ymax box - ymin box) / 2),
          width = clamp01 (xmax box - xmin box),
          height = clamp01 (ymax box - ymin box) \<rparr>) \<and>
   (ymax box > 1 \<longrightarrow>
      convertGeminiBoxToYolo box w h =
        \<lparr> x_center = clamp01 (xmin box / 1000 + (xmax box / 1000 - xmin box / 1000) / 2),
          y_center = clamp01 (ymin box / 1000 + (ymax box / 1000 - ymin box / 1000) / 2),
          width = clamp01 (xmax box / 1000 - xmin box / 1000),
          height = clamp01 (ymax box / 1000 - ymin box / 1000) \<rparr>)"
  by (simp add: convertGeminiBoxToYolo_def detectScale_def Let_def)

theorem convert_scale_by_ymax_witness:
  "convertGeminiBoxToYolo \<lparr> ymin = 0.2, xmin = 0.1, ymax = 1, xmax = 0.5 \<rparr> 640 640 =
     \<lparr> x_center = 0.3, y_center = 0.6, width = 0.4, height = 0.8 \<rparr> \<and>
   convertGeminiBoxToYolo \<lparr> ymin = 200, xmin = 100, ymax = 1000, xmax = 500 \<rparr> 640 640 =
     \<lparr> x_center = 0.3, y_center = 0.6, width = 0.4, height = 0.8 \<rparr> \<and>
   detectScale \<lparr> ymin = 0, xmin = 0, ymax = 2, xmax = 5000 \<rparr> =
     detectScale \<lparr> ymin = 1, xmin = 1, ymax = 2, xmax = 1 \<rparr>"
  using convert_scale_by_ymax
          [of "\<lparr> ymin = 0, xmin = 0, ymax = 2, xmax = 5000 \<rparr>"
              "\<lparr> ymin = 1, xmin = 1, ymax = 2, xmax = 1 \<rparr>"
              "\<lparr> ymin = 0.2, xmin = 0.1, ymax = 1, xmax = 0.5 \<rparr>" 640 640]
        convert_scale_by_ymax
          [of "\<lparr> ymin = 0, xmin = 0, ymax = 2, xmax = 5000 \<rparr>"
              "\<lparr> ymin = 1, xmin = 1, ymax = 2, xmax = 1 \<rparr>"
              "\<lparr> ymin = 200, xmin = 100, ymax = 1000, xmax = 500 \<rparr>" 640 640]
  by (simp add: clamp01_def)

text \<open>
  Claim C10. Clamping each field on its own does not keep the box inside the image:
  the raw box ymin = 0, xmin = 500, ymax = 1000, xmax = 1500 is converted to a box with
  x_center = 1 and width = 1, all four fields in the unit interval, whose right edge
  x_center + width / 2 lies beyond 1.
\<close>

theorem per_field_clamp_leaves_image:
  "x_center (convertGeminiBoxToYolo \<lparr> ymin = 0, xmin = 500, ymax = 1000, xmax = 1500 \<rparr> w h) = 1 \<and>
   width (convertGeminiBoxToYolo \<lparr> ymin = 0, xmin = 500, ymax = 1000, xmax = 1500 \<rparr> w h) = 1 \<and>
   y_center (convertGeminiBoxToYolo \<lparr> ymin = 0, xmin = 500, ymax = 1000, xmax = 1500 \<rparr> w h) = 1 / 2 \<and>
   height (convertGeminiBoxToYolo \<lparr> ymin = 0, xmin = 500, ymax = 1000, xmax = 1500 \<rparr> w h) = 1 \<and>
   x_center (convertGeminiBoxToYolo \<lparr> ymin = 0, xmin = 500, ymax = 1000, xmax = 1500 \<rparr> w h)
     + width (convertGeminiBoxToYolo \<lparr> ymin = 0, xmin = 500, ymax = 1000, xmax = 1500 \<rparr> w h) / 2 > 1"
  by (simp add: convertGeminiBoxToYolo_def detectScale_def Let_def clamp01_def)

section \<open>Properties of the aspect-ratio choice\<close>







































section \<open>Properties of the label line\<close>

lemma lt10_cases: "(d::nat) < 10 \<Longrightarrow> d \<in> {0, 1, 2, 3, 4, 5, 6, 7, 8, 9}"
  by auto

lemma digit_of_digit_char: "d < 10 \<Longrightarrow> digit_of (digit_char d) = d"
  by (drule lt10_cases) (auto simp add: digit_char_def digit_of_def)

lemma digit_char_is_digit: "d < 10 \<Longrightarrow> digit_char d \<in> set ''0123456789''"
  unfolding digit_char_def by (rule nth_mem) simp

lemma decimal_numeral:
  "decimal (numeral k) =
     (if (numeral k :: nat) < 10 then [digit_char (numeral k)]
      else decimal (numeral k div 10) @ [digit_char (numeral k mod 10)])"
  by (rule decimal.simps)

lemma digits_value_snoc: "digits_value (s @ [c]) = 10 * digits_value s + digit_of c"
  by (simp add: digits_value_def)

lemma digits_value_decimal: "digits_value (decimal n) = n"
proof (induction n rule: decimal.induct)
  case (1 n)
  show ?case
  proof (cases "n < 10")
    case True
    then show ?thesis
      by (simp add: decimal.simps [of n] digits_value_def digit_of_digit_char)
  next
    case False
    then have "digits_value (decimal (n div 10)) = n div 10" using 1 by simp
    then show ?thesis using False
      by (simp add: decimal.simps [of n] digits_value_snoc digit_of_digit_char)
  qed
qed

lemma decimal_digits: "set (decimal n) \<subseteq> set ''0123456789''"
proof (induction n rule: decimal.induct)
  case (1 n)
  show ?case
  proof (cases "n < 10")
    case True
    then show ?thesis
      using digit_char_is_digit [of n] by (simp add: decimal.simps [of n])
  next
    case False
    then have "set (decimal (n div 10)) \<subseteq> set ''0123456789''" using 1 by simp
    moreover have "digit_char (n mod 10) \<in> set ''0123456789''"
      by (rule digit_char_is_digit) simp
    ultimately show ?thesis using False
      by (simp add: decimal.simps [of n])
  qed
qed

lemma decimal_nonempty: "decimal n \<noteq> []"
  by (subst decimal.simps) simp

lemma decimal_inj: "decimal a = decimal b \<Longrightarrow> a = b"
  by (metis digits_value_decimal)

lemma digits_value_zeros: "digits_value (replicate k CHR ''0'' @ s) = digits_value s"
proof -
  have "foldl (\<lambda>acc c. 10 * acc + digit_of c) 0 (replicate k CHR ''0'') = 0"
    by (induction k) (simp_all add: digit_of_def)
  then show ?thesis by (simp add: digits_value_def)
qed

lemma round_half_up_close:
  fixes y :: real
  assumes "0 \<le> y"
  shows "\<bar>real (nat \<lfloor>y + 1 / 2\<rfloor>) - y\<bar> \<le> 1 / 2"
proof -
  have "0 \<le> \<lfloor>y + 1 / 2\<rfloor>" using assms by simp
  then have "real (nat \<lfloor>y + 1 / 2\<rfloor>) = of_int \<lfloor>y + 1 / 2\<rfloor>" by simp
  moreover have "of_int \<lfloor>y + 1 / 2\<rfloor> \<le> y + 1 / 2" by (rule of_int_floor_le)
  moreover have "y + 1 / 2 < of_int \<lfloor>y + 1 / 2\<rfloor> + 1" by linarith
  ultimately show ?thesis by linarith
qed

lemma toFixed_six_decimals:
  assumes "0 \<le> x" and "x < 10 ^ 21"
  shows "\<exists>s. toFixed x 6 = Some s \<and> six_decimals x s"
proof -
  define n where "n = nat \<lfloor>x * 10 ^ 6 + 1 / 2\<rfloor>"
  define m where "m = (if length (decimal n) \<le> 6
                       then replicate (7 - length (decimal n)) CHR ''0'' @ decimal n
                       else decimal n)"
  define k where "k = (if length (decimal n) \<le> 6 then 7 else length (decimal n))"
  have len: "length m = k"
    using decimal_nonempty [of n] by (auto simp: m_def k_def Suc_le_eq)
  have k7: "7 \<le> k" by (simp add: k_def)
  have tf: "toFixed x 6 = Some (take (k - 6) m @ ''.'' @ drop (k - 6) m)"
    using assms by (simp add: toFixed_def Let_def n_def m_def k_def)
  have val: "digits_value m = n"
    by (simp add: m_def digits_value_zeros digits_value_decimal)
  have dig: "set m \<subseteq> set ''0123456789''"
    using decimal_digits [of n] by (auto simp: m_def)
  have close: "\<bar>real n / 10 ^ 6 - x\<bar> \<le> 1 / (2 * 10 ^ 6)"
  proof -
    have "0 \<le> x * 10 ^ 6" using assms by simp
    from round_half_up_close [OF this] have "\<bar>real n - x * 10 ^ 6\<bar> \<le> 1 / 2"
      by (simp add: n_def)
    then show ?thesis by (simp add: field_simps abs_le_iff)
  qed
  have "six_decimals x (take (k - 6) m @ ''.'' @ drop (k - 6) m)"
    unfolding six_decimals_def
  proof (intro exI conjI)
    show "take (k - 6) m @ ''.'' @ drop (k - 6) m = take (k - 6) m @ ''.'' @ drop (k - 6) m" ..
    show "take (k - 6) m \<noteq> []" using k7 len by auto
    show "length (drop (k - 6) m) = 6" using k7 len by simp
    show "set (take (k - 6) m @ drop (k - 6) m) \<subseteq> set ''0123456789''" using dig by simp
    show "\<bar>real (digits_value (take (k - 6) m @ drop (k - 6) m)) / 10 ^ 6 - x\<bar> \<le> 1 / (2 * 10 ^ 6)"
      using close val by simp
  qed
  with tf show ?thesis by blast
qed

lemma length_fixed_digits: "length (fixed_digits j n) = j"
  by (induction j arbitrary: n) simp_all

lemma fixed_digits_numeral:
  "fixed_digits (numeral k) n =
     fixed_digits (pred_numeral k) (n div 10) @ [digit_char (n mod 10)]"
  by (simp only: numeral_eq_Suc [of k] fixed_digits.simps)

lemma fixed_digits_zero: "fixed_digits j 0 = replicate j CHR ''0''"
  by (induction j) (simp_all add: digit_char_def replicate_append_same)

lemma decimal_split:
  "10 ^ j \<le> n \<Longrightarrow> decimal n = decimal (n div 10 ^ j) @ fixed_digits j n"
proof (induction j arbitrary: n)
  case 0
  show ?case by simp
next
  case (Suc j)
  have "(10::nat) \<le> 10 ^ Suc j" by simp
  with Suc.prems have ten: "10 \<le> n" by linarith
  have "10 ^ j \<le> n div 10" using Suc.prems by (simp add: less_eq_div_iff_mult_less_eq mult.commute)
  then have "decimal (n div 10) = decimal (n div 10 div 10 ^ j) @ fixed_digits j (n div 10)"
    by (rule Suc.IH)
  moreover have "n div 10 div 10 ^ j = n div 10 ^ Suc j" by (simp add: div_mult2_eq)
  moreover have "decimal n = decimal (n div 10) @ [digit_char (n mod 10)]"
    using ten by (subst decimal.simps) simp
  ultimately show ?case by simp
qed

lemma fixed_digits_pad:
  "n < 10 ^ j \<Longrightarrow> 0 < j \<Longrightarrow>
   length (decimal n) \<le> j \<and>
   fixed_digits j n = replicate (j - length (decimal n)) CHR ''0'' @ decimal n"
proof (induction j arbitrary: n)
  case 0
  then show ?case by simp
next
  case (Suc j)
  show ?case
  proof (cases "n < 10")
    case True
    then have d: "decimal n = [digit_char n]" by (subst decimal.simps) simp
    from True have "n div 10 = 0" "n mod 10 = n" by simp_all
    then show ?thesis by (simp add: d fixed_digits_zero)
  next
    case False
    then have d: "decimal n = decimal (n div 10) @ [digit_char (n mod 10)]"
      by (subst decimal.simps) simp
    have j: "0 < j"
    proof (rule ccontr)
      assume "\<not> 0 < j"
      then have "j = 0" by simp
      with Suc.prems False show False by simp
    qed
    have "n div 10 < 10 ^ j" using Suc.prems(1) by (simp add: div_less_iff_less_mult mult.commute)
    from Suc.IH [OF this j]
    have ih: "length (decimal (n div 10)) \<le> j"
      "fixed_digits j (n div 10) =
         replicate (j - length (decimal (n div 10))) CHR ''0'' @ decimal (n div 10)"
      by simp_all
    show ?thesis using ih by (simp add: d)
  qed
qed

lemma length_decimal_le: "0 < j \<Longrightarrow> length (decimal n) \<le> j \<longleftrightarrow> n < 10 ^ j"
proof
  assume j: "0 < j" and l: "length (decimal n) \<le> j"
  show "n < 10 ^ j"
  proof (rule ccontr)
    assume "\<not> n < 10 ^ j"
    then have "10 ^ j \<le> n" by simp
    from decimal_split [OF this]
    have "length (decimal n) = length (decimal (n div 10 ^ j)) + j"
      by (simp add: length_fixed_digits)
    moreover have "0 < length (decimal (n div 10 ^ j))"
      using decimal_nonempty by simp
    ultimately show False using l by simp
  qed
next
  assume "0 < j" and "n < 10 ^ j"
  then show "length (decimal n) \<le> j" using fixed_digits_pad by blast
qed

lemma toFixed_sixDecimals:
  assumes "0 \<le> x" and "x < 10 ^ 21"
  shows "toFixed x 6 = Some (sixDecimals x)"
proof -
  define n where "n = nat \<lfloor>x * 10 ^ 6 + 1 / 2\<rfloor>"
  have n_eq: "nat \<lfloor>x * 1000000 + 1 / 2\<rfloor> = n" by (simp add: n_def)
  let ?m = "decimal n"
  let ?k = "length ?m"
  have six: "sixDecimals x = decimal (n div 10 ^ 6) @ ''.'' @ fixed_digits 6 n"
    by (simp add: sixDecimals_def Let_def n_eq)
  show ?thesis
  proof (cases "?k \<le> 6")
    case True
    then have small: "n < 10 ^ 6" using length_decimal_le [of 6 n] by simp
    have pad: "fixed_digits 6 n = replicate (6 - ?k) CHR ''0'' @ ?m"
      using fixed_digits_pad [OF small] by simp
    have zero: "decimal (n div 10 ^ 6) = ''0''"
      using small by (simp add: decimal.simps [of 0] digit_char_def)
    have rep: "replicate (7 - ?k) CHR ''0'' = CHR ''0'' # replicate (6 - ?k) CHR ''0''"
      using True by (simp add: Suc_diff_le flip: replicate_Suc)
    have "toFixed x 6 = Some (''0'' @ ''.'' @ replicate (6 - ?k) CHR ''0'' @ ?m)"
      using assms True by (simp add: toFixed_def Let_def n_eq rep)
    then show ?thesis
      unfolding six pad zero by simp
  next
    case False
    then have big: "10 ^ 6 \<le> n" using length_decimal_le [of 6 n] by simp
    have sp: "?m = decimal (n div 10 ^ 6) @ fixed_digits 6 n"
      using decimal_split [OF big] .
    have k: "?k - 6 = length (decimal (n div 10 ^ 6))"
      by (subst sp) (simp add: length_fixed_digits)
    have "take (?k - 6) ?m = decimal (n div 10 ^ 6)"
      unfolding k by (subst sp) simp
    moreover have "drop (?k - 6) ?m = fixed_digits 6 n"
      unfolding k by (subst sp) simp
    moreover have "toFixed x 6 = Some (take (?k - 6) ?m @ ''.'' @ drop (?k - 6) ?m)"
      using assms False by (simp add: toFixed_def Let_def n_eq)
    ultimately show ?thesis
      unfolding six by simp
  qed
qed
text \<open>
  The text \<open>sixDecimals v\<close> reads as digits, a point and six digits, and denotes a number
  within half a millionth of \<open>v\<close>.
\<close>

lemma sixDecimals_reads_back:
  assumes "0 \<le> x" and "x < 10 ^ 21"
  shows "six_decimals x (sixDecimals x)"
  using toFixed_six_decimals [OF assms] toFixed_sixDecimals [OF assms] by simp

lemma formatYoloLine_example:
  "formatYoloLine 2 \<lparr> x_center = 0.5, y_center = 0.5, width = 0.25, height = 0.5 \<rparr> =
     Some ''2 0.500000 0.500000 0.250000 0.500000''"
  by (simp add: formatYoloLine_def Number_toString_def toFixed_def Let_def digit_char_def
        decimal_numeral)

text \<open>
  Claim C3. For a class id up to \<open>2^53\<close> (where JavaScript prints an integer in plain
  decimal) and a normalized box, the label line is exactly this text: the class id in
  decimal, then the four fields x_center, y_center, width, height in this order, each as
  the number with six decimals nearest to it, separated by single spaces, and nothing
  after the height: no class name. For class id 2 and the box (0.5, 0.5, 0.25, 0.5) the
  line is \<open>2 0.500000 0.500000 0.250000 0.500000\<close>.
\<close>

theorem formatYoloLine_format:
  assumes "cid \<le> 2 ^ 53"
    and "0 \<le> x_center b" and "x_center b \<le> 1"
    and "0 \<le> y_center b" and "y_center b \<le> 1"
    and "0 \<le> width b" and "width b \<le> 1"
    and "0 \<le> height b" and "height b \<le> 1"
  shows "formatYoloLine cid b =
           Some (decimal cid @ '' '' @ sixDecimals (x_center b) @ '' '' @
                 sixDecimals (y_center b) @ '' '' @ sixDecimals (width b) @ '' '' @
                 sixDecimals (height b)) \<and>
         set (decimal cid) \<subseteq> set ''0123456789'' \<and>
         digits_value (decimal cid) = cid \<and>
         six_decimals (x_center b) (sixDecimals (x_center b)) \<and>
         six_decimals (y_center b) (sixDecimals (y_center b)) \<and>
         six_decimals (width b) (sixDecimals (width b)) \<and>
         six_decimals (height b) (sixDecimals (height b)) \<and>
         formatYoloLine 2 \<lparr> x_center = 0.5, y_center = 0.5, width = 0.25, height = 0.5 \<rparr> =
           Some ''2 0.500000 0.500000 0.250000 0.500000''"
proof -
  have big: "(1::real) < 10 ^ 21" by simp
  have xb: "x_center b < 10 ^ 21" using assms(3) big by linarith
  have yb: "y_center b < 10 ^ 21" using assms(5) big by linarith
  have wb: "width b < 10 ^ 21" using assms(7) big by linarith
  have hb: "height b < 10 ^ 21" using assms(9) big by linarith
  have line: "formatYoloLine cid b =
           Some (decimal cid @ '' '' @ sixDecimals (x_center b) @ '' '' @
                 sixDecimals (y_center b) @ '' '' @ sixDecimals (width b) @ '' '' @
                 sixDecimals (height b))"
    using assms(1)
      toFixed_sixDecimals [OF assms(2) xb] toFixed_sixDecimals [OF assms(4) yb]
      toFixed_sixDecimals [OF assms(6) wb] toFixed_sixDecimals [OF assms(8) hb]
    by (simp add: formatYoloLine_def Number_toString_def)
  from line decimal_digits [of cid] digits_value_decimal [of cid]
    sixDecimals_reads_back [OF assms(2) xb] sixDecimals_reads_back [OF assms(4) yb]
    sixDecimals_reads_back [OF assms(6) wb] sixDecimals_reads_back [OF assms(8) hb]
    formatYoloLine_example
  show ?thesis by (intro conjI)
qed

theorem formatYoloLine_format_witness:
  "formatYoloLine 7 \<lparr> x_center = 1 / 128, y_center = 0.5, width = 0.25, height = 1 \<rparr> =
     Some (decimal 7 @ '' '' @ sixDecimals (1 / 128) @ '' '' @ sixDecimals 0.5 @ '' '' @
           sixDecimals 0.25 @ '' '' @ sixDecimals 1) \<and>
   sixDecimals (1 / 128) = ''0.007813''"
proof -
  have "sixDecimals (1 / 128) = ''0.007813''"
    by (simp add: sixDecimals_def Let_def fixed_digits_numeral decimal.simps [of 0]
          digit_char_def)
  moreover have "formatYoloLine 7 \<lparr> x_center = 1 / 128, y_center = 0.5, width = 0.25, height = 1 \<rparr> =
     Some (decimal 7 @ '' '' @ sixDecimals (1 / 128) @ '' '' @ sixDecimals 0.5 @ '' '' @
           sixDecimals 0.25 @ '' '' @ sixDecimals 1)"
    using formatYoloLine_format
            [of 7 "\<lparr> x_center = 1 / 128, y_center = 0.5, width = 0.25, height = 1 \<rparr>",
             THEN conjunct1]
    by simp
  ultimately show ?thesis by simp
qed

section \<open>Properties of image normalization\<close>

text \<open>
  Claim C5 asks that a source image which cannot be decoded makes the operation fail with
  an error of its own. The function has no rejecting path at all: whatever the browser
  does, the promise never rejects; when the image does not load it stays pending, and
  when no drawing context is available it resolves with the source image unchanged.
\<close>

theorem resizeImage_never_rejects:
  "(\<forall>e. resizeImage b src w h \<noteq> Rejected e) \<and>
   resizeImage (b\<lparr> decodes := (\<lambda>s. False) \<rparr>) src w h = Pending \<and>
   resizeImage (b\<lparr> decodes := (\<lambda>s. True), context2d := False \<rparr>) src w h = Resolved src"
  by (simp add: resizeImage_def)

section \<open>Properties of the run-level checks\<close>

text \<open>
  The claim C6 as stated fails: with no reference image the call returns normally, shows
  no alert and leaves the state as it was, so nothing tells the caller of the violation.
\<close>

theorem missing_image_not_surfaced:
  "falsy (referenceImg (exampleState\<lparr> referenceImg := None \<rparr>)) \<and>
   generateDataset exampleEnv (exampleState\<lparr> referenceImg := None \<rparr>) =
     \<lparr> final = exampleState\<lparr> referenceImg := None \<rparr>, alerts = [], outcome = Returned \<rparr>"
  by (simp add: generateDataset_def falsy_def exampleState_def)

text \<open>
  Claim C6, amended. When the reference image is missing, the credential is missing or
  the angle selection is empty, the call returns at once and leaves the whole component
  state unchanged: no item is created, the progress and the processing flag are not
  touched. Only the empty angle selection (with image and credential present) is
  reported, by an alert; a missing image or credential returns silently.
\<close>

theorem precondition_violation_aborts:
  assumes "falsy (referenceImg st) \<or> apiKey st = [] \<or> selectedAngles st = []"
  shows "final (generateDataset env st) = st \<and>
         outcome (generateDataset env st) = Returned \<and>
         alerts (generateDataset env st) =
           (if falsy (referenceImg st) \<or> apiKey st = [] then []
            else [''Please select at least one camera angle.''])"
  using assms by (auto simp add: generateDataset_def)

theorem precondition_violation_aborts_witness:
  "selectedAngles (exampleState\<lparr> selectedAngles := [] \<rparr>) = [] \<and>
   final (generateDataset exampleEnv (exampleState\<lparr> selectedAngles := [] \<rparr>)) =
     exampleState\<lparr> selectedAngles := [] \<rparr> \<and>
   outcome (generateDataset exampleEnv (exampleState\<lparr> selectedAngles := [] \<rparr>)) = Returned \<and>
   alerts (generateDataset exampleEnv (exampleState\<lparr> selectedAngles := [] \<rparr>)) =
     [''Please select at least one camera angle.'']"
proof -
  have v: "falsy (referenceImg (exampleState\<lparr> selectedAngles := [] \<rparr>)) \<or>
           apiKey (exampleState\<lparr> selectedAngles := [] \<rparr>) = [] \<or>
           selectedAngles (exampleState\<lparr> selectedAngles := [] \<rparr>) = []"
    by simp
  have p: "\<not> (falsy (referenceImg (exampleState\<lparr> selectedAngles := [] \<rparr>)) \<or>
              apiKey (exampleState\<lparr> selectedAngles := [] \<rparr>) = [])"
    by (simp add: exampleState_def falsy_def)
  from precondition_violation_aborts [OF v, of exampleEnv] p show ?thesis
    by simp
qed

section \<open>Properties of the export\<close>

lemma filePaths_append: "filePaths (xs @ ys) = filePaths xs @ filePaths ys"
  by (induction xs rule: filePaths.induct) simp_all

lemma filePaths_itemFiles:
  "bbox item \<noteq> None \<Longrightarrow>
   filePaths (itemFiles cid item) =
     [''images/'' @ id' item @ ''.jpg'', ''labels/'' @ id' item @ ''.txt'']"
  by (auto simp add: itemFiles_def)

lemma filePaths_concat_itemFiles:
  "\<forall>item \<in> set items. bbox item \<noteq> None \<Longrightarrow>
   filePaths (concat (map (itemFiles cid) items)) =
     concat (map (\<lambda>item. [''images/'' @ id' item @ ''.jpg'', ''labels/'' @ id' item @ ''.txt''])
               items)"
proof (induction items)
  case Nil
  show ?case by simp
next
  case (Cons item items)
  then have "filePaths (itemFiles cid item) =
     [''images/'' @ id' item @ ''.jpg'', ''labels/'' @ id' item @ ''.txt'']"
    by (simp add: filePaths_itemFiles)
  with Cons show ?case by (simp add: filePaths_append)
qed

text \<open>
  Claim C8. The export takes the items that are completed and carry a box, and no
  others: when there is none it returns without writing a file or saving an archive;
  otherwise it saves one archive whose files are the manifest and, for each such item in
  order, its image and its label, so an item marked completed without a box contributes
  nothing.
\<close>

theorem export_completed_with_box:
  "((\<forall>item \<in> set (generatedItems st). \<not> (status item = completed \<and> bbox item \<noteq> None)) \<longrightarrow>
      handleDownloadZip st = None) \<and>
   ((\<exists>item \<in> set (generatedItems st). status item = completed \<and> bbox item \<noteq> None) \<longrightarrow>
      (\<exists>entries.
         handleDownloadZip st = Some (''yolo_drone_dataset.zip'', entries) \<and>
         filePaths entries =
           ''data.yaml'' #
           concat (map (\<lambda>item. [''images/'' @ id' item @ ''.jpg'', ''labels/'' @ id' item @ ''.txt''])
                     (filter (\<lambda>i. status i = completed \<and> bbox i \<noteq> None) (generatedItems st)))))"
proof (intro conjI impI)
  assume "\<forall>item \<in> set (generatedItems st). \<not> (status item = completed \<and> bbox item \<noteq> None)"
  then have "filter (\<lambda>i. status i = completed \<and> bbox i \<noteq> None) (generatedItems st) = []"
    by (simp add: filter_empty_conv)
  then show "handleDownloadZip st = None"
    by (simp add: handleDownloadZip_def)
next
  let ?q = "filter (\<lambda>i. status i = completed \<and> bbox i \<noteq> None) (generatedItems st)"
  assume "\<exists>item \<in> set (generatedItems st). status item = completed \<and> bbox item \<noteq> None"
  then have ne: "?q \<noteq> []" by (simp add: filter_empty_conv)
  have boxes: "\<forall>item \<in> set ?q. bbox item \<noteq> None" by simp
  have "handleDownloadZip st =
          Some (''yolo_drone_dataset.zip'',
                [Folder ''images'', Folder ''labels'',
                 File ''data.yaml'' (dataYaml (classId st) (objectLabel st))]
                @ concat (map (itemFiles (classId st)) ?q))"
    using ne by (simp add: handleDownloadZip_def Let_def)
  moreover have "filePaths ([Folder ''images'', Folder ''labels'',
                 File ''data.yaml'' (dataYaml (classId st) (objectLabel st))]
                @ concat (map (itemFiles (classId st)) ?q)) =
           ''data.yaml'' #
           concat (map (\<lambda>item. [''images/'' @ id' item @ ''.jpg'', ''labels/'' @ id' item @ ''.txt''])
                     ?q)"
    using filePaths_concat_itemFiles [OF boxes, of "classId st"] by simp
  ultimately show "\<exists>entries.
         handleDownloadZip st = Some (''yolo_drone_dataset.zip'', entries) \<and>
         filePaths entries =
           ''data.yaml'' #
           concat (map (\<lambda>item. [''images/'' @ id' item @ ''.jpg'', ''labels/'' @ id' item @ ''.txt''])
                     ?q)"
    by blast
qed

theorem export_completed_with_box_witness:
  "handleDownloadZip (exampleState\<lparr> generatedItems := [exampleItems ! 1, exampleItems ! 2] \<rparr>) = None \<and>
   (\<exists>entries.
      handleDownloadZip (exampleState\<lparr> generatedItems := exampleItems \<rparr>) =
        Some (''yolo_drone_dataset.zip'', entries) \<and>
      filePaths entries =
        [''data.yaml'', ''images/img_1700000000000_0.jpg'', ''labels/img_1700000000000_0.txt''])"
proof -
  have a: "\<forall>item \<in> set (generatedItems (exampleState\<lparr> generatedItems := [exampleItems ! 1, exampleItems ! 2] \<rparr>)).
             \<not> (status item = completed \<and> bbox item \<noteq> None)"
    by (simp add: exampleItems_def)
  have b: "\<exists>item \<in> set (generatedItems (exampleState\<lparr> generatedItems := exampleItems \<rparr>)).
             status item = completed \<and> bbox item \<noteq> None"
    by (simp add: exampleItems_def)
  have c: "filter (\<lambda>i. status i = completed \<and> bbox i \<noteq> None) exampleItems = [exampleItems ! 0]"
    by (simp add: exampleItems_def)
  have d: "id' (exampleItems ! 0) = ''img_1700000000000_0''"
    by (simp add: exampleItems_def)
  from export_completed_with_box
         [of "exampleState\<lparr> generatedItems := [exampleItems ! 1, exampleItems ! 2] \<rparr>"] a
  have "handleDownloadZip (exampleState\<lparr> generatedItems := [exampleItems ! 1, exampleItems ! 2] \<rparr>) = None"
    by blast
  moreover
  from export_completed_with_box [of "exampleState\<lparr> generatedItems := exampleItems \<rparr>"] b
  have "\<exists>entries.
      handleDownloadZip (exampleState\<lparr> generatedItems := exampleItems \<rparr>) =
        Some (''yolo_drone_dataset.zip'', entries) \<and>
      filePaths entries =
        ''data.yaml'' #
        concat (map (\<lambda>item. [''images/'' @ id' item @ ''.jpg'', ''labels/'' @ id' item @ ''.txt''])
                  (filter (\<lambda>i. status i = completed \<and> bbox i \<noteq> None)
                     (generatedItems (exampleState\<lparr> generatedItems := exampleItems \<rparr>))))"
    by blast
  then have "\<exists>entries.
      handleDownloadZip (exampleState\<lparr> generatedItems := exampleItems \<rparr>) =
        Some (''yolo_drone_dataset.zip'', entries) \<and>
      filePaths entries =
        [''data.yaml'', ''images/img_1700000000000_0.jpg'', ''labels/img_1700000000000_0.txt'']"
    using c d by simp
  ultimately show ?thesis by (rule conjI)
qed

section \<open>Properties of a run\<close>

lemma updateItem_other:
  "\<forall>x \<in> set pre. id' x \<noteq> i \<Longrightarrow> updateItem i f (pre @ ys) = pre @ updateItem i f ys"
  by (simp add: updateItem_def map_idI)

lemma updateItem_single: "id' x = i \<Longrightarrow> updateItem i f [x] = [f x]"
  by (simp add: updateItem_def)

lemma updateItem_last:
  "\<forall>x \<in> set pre. id' x \<noteq> i \<Longrightarrow> id' x = i \<Longrightarrow> updateItem i f (pre @ [x]) = pre @ [f x]"
  by (simp add: updateItem_other updateItem_single)

lemma tryItem_settled:
  assumes s: "itemSettles env cap i"
    and pre: "\<forall>x \<in> set pre. id' x \<noteq> itemId env i"
    and it: "id' item = itemId env i" "error item = None"
  shows "\<exists>item'. tryItem env cap i (pre @ [item]) = Inr (pre @ [item']) \<and>
           id' item' = itemId env i \<and>
           (status item' = completed \<or> status item' = failed) \<and>
           itemAsSpecified env cap i item'"
proof (cases "generateDroneView (imageModel env i) (apiKey cap)")
  case Pending
  with s show ?thesis by (simp add: itemSettles_def)
next
  case (Rejected e)
  then show ?thesis
    using pre it by (simp add: tryItem_def failItem_def updateItem_last itemAsSpecified_def)
next
  case gen: (Resolved raw)
  show ?thesis
  proof (cases "resizeImage (browser env i) raw (width' (config cap)) (height' (config cap))")
    case Pending
    with s gen show ?thesis by (simp add: itemSettles_def)
  next
    case (Rejected e)
    then show ?thesis by (simp add: resizeImage_def split: if_splits)
  next
    case rs: (Resolved resized)
    show ?thesis
    proof (cases "detectObjectBBox (detectionModel env i) (apiKey cap)")
      case Pending
      with s gen rs show ?thesis by (simp add: itemSettles_def)
    next
      case (Rejected e)
      with gen rs show ?thesis
        using pre it by (simp add: tryItem_def failItem_def updateItem_last itemAsSpecified_def)
    next
      case (Resolved box)
      with gen rs show ?thesis
        using pre it by (simp add: tryItem_def failItem_def updateItem_last itemAsSpecified_def)
    qed
  qed
qed

lemma sep_suffix_unique:
  assumes "a @ c # b = a' @ c # b'" and "c \<notin> set b" and "c \<notin> set b'"
  shows "b = b'"
proof -
  have "\<And>u v. c \<notin> set v \<Longrightarrow> takeWhile (\<lambda>x. x \<noteq> c) (rev (u @ c # v)) = rev v"
    by (auto simp add: takeWhile_tail)
  with assms have "rev b = rev b'" by metis
  then show ?thesis by simp
qed

lemma decimal_no_underscore: "CHR ''_'' \<notin> set (decimal n)"
  using decimal_digits [of n] by auto

lemma itemId_inj: "itemId env i = itemId env j \<Longrightarrow> i = j"
proof -
  assume "itemId env i = itemId env j"
  then have "(''img_'' @ decimal (dateNow env i)) @ CHR ''_'' # decimal i =
             (''img_'' @ decimal (dateNow env j)) @ CHR ''_'' # decimal j"
    by (simp add: itemId_def)
  then have "decimal i = decimal j"
    by (rule sep_suffix_unique) (rule decimal_no_underscore)+
  then show ?thesis by (rule decimal_inj)
qed

lemma newItem_fields:
  "id' (fst (newItem env cap i k)) = itemId env i \<and>
   error (fst (newItem env cap i k)) = None \<and>
   status (fst (newItem env cap i k)) = generating"
  by (simp add: newItem_def Let_def split: prod.splits)

lemma itemLoop_settled:
  assumes "\<forall>j < count (config cap). itemSettles env cap j"
    and "length (generatedItems s) = i"
    and "\<forall>j < i. id' (generatedItems s ! j) = itemId env j \<and>
                 (status (generatedItems s ! j) = completed \<or> status (generatedItems s ! j) = failed) \<and>
                 itemAsSpecified env cap j (generatedItems s ! j)"
    and "i \<le> count (config cap)"
    and "progress s = Some \<lparr> current = i, total = count (config cap) \<rparr>"
  shows "outcome (itemLoop env cap i k s) = Returned \<and>
         isProcessing (final (itemLoop env cap i k s)) = False \<and>
         length (generatedItems (final (itemLoop env cap i k s))) = count (config cap) \<and>
         progress (final (itemLoop env cap i k s)) =
           Some \<lparr> current = count (config cap), total = count (config cap) \<rparr> \<and>
         (\<forall>j < count (config cap).
            (status (generatedItems (final (itemLoop env cap i k s)) ! j) = completed \<or>
             status (generatedItems (final (itemLoop env cap i k s)) ! j) = failed) \<and>
            itemAsSpecified env cap j (generatedItems (final (itemLoop env cap i k s)) ! j))"
  using assms
proof (induction "count (config cap) - i" arbitrary: i k s)
  case 0
  then have "\<not> i < count (config cap)" by simp
  then have "itemLoop env cap i k s =
               \<lparr> final = s\<lparr> isProcessing := False \<rparr>, alerts = [], outcome = Returned \<rparr>"
    by (subst itemLoop.simps) simp
  moreover have "i = count (config cap)" using 0 by simp
  ultimately show ?case using "0.prems" by simp
next
  case (Suc d)
  let ?pre = "generatedItems s"
  let ?item = "fst (newItem env cap i k)"
  let ?k' = "snd (newItem env cap i k)"
  from Suc.hyps(2) have lt: "i < count (config cap)" by simp
  have settles: "itemSettles env cap i" using Suc.prems(1) lt by simp
  have fresh: "\<forall>x \<in> set ?pre. id' x \<noteq> itemId env i"
  proof
    fix x assume "x \<in> set ?pre"
    then obtain j where j: "j < length ?pre" "x = ?pre ! j" by (auto simp: in_set_conv_nth)
    then have "j < i" using Suc.prems(2) by simp
    then have "id' x = itemId env j" using Suc.prems(3) j by simp
    moreover have "j \<noteq> i" using \<open>j < i\<close> by simp
    ultimately show "id' x \<noteq> itemId env i" using itemId_inj [of env j i] by auto
  qed
  have nf: "id' ?item = itemId env i" "error ?item = None"
    using newItem_fields [of env cap i k] by simp_all
  from tryItem_settled [OF settles fresh nf]
  obtain item' where t: "tryItem env cap i (?pre @ [?item]) = Inr (?pre @ [item'])"
    and i': "id' item' = itemId env i"
            "status item' = completed \<or> status item' = failed"
            "itemAsSpecified env cap i item'"
    by blast
  let ?s' = "s\<lparr> generatedItems := ?pre @ [item'],
                  progress := Some \<lparr> current = i + 1, total = count (config cap) \<rparr> \<rparr>"
  have step: "itemLoop env cap i k s = itemLoop env cap (Suc i) ?k' ?s'"
    using lt t by (simp add: itemLoop.simps [of env cap i k s] case_prod_beta Let_def)
  have d: "d = count (config cap) - Suc i" using Suc.hyps(2) by simp
  have len: "length (generatedItems ?s') = Suc i" using Suc.prems(2) by simp
  have inv: "\<forall>j < Suc i. id' (generatedItems ?s' ! j) = itemId env j \<and>
                 (status (generatedItems ?s' ! j) = completed \<or> status (generatedItems ?s' ! j) = failed) \<and>
                 itemAsSpecified env cap j (generatedItems ?s' ! j)"
  proof (intro allI impI)
    fix j assume "j < Suc i"
    then consider "j < i" | "j = i" by fastforce
    then show "id' (generatedItems ?s' ! j) = itemId env j \<and>
                 (status (generatedItems ?s' ! j) = completed \<or> status (generatedItems ?s' ! j) = failed) \<and>
                 itemAsSpecified env cap j (generatedItems ?s' ! j)"
    proof cases
      case 1
      then have "generatedItems ?s' ! j = ?pre ! j" using Suc.prems(2) by (simp add: nth_append)
      with 1 Suc.prems(3) show ?thesis by simp
    next
      case 2
      then have "generatedItems ?s' ! j = item'" using Suc.prems(2) by (simp add: nth_append)
      with 2 i' show ?thesis by simp
    qed
  qed
  have le: "Suc i \<le> count (config cap)" using lt by simp
  have pr: "progress ?s' = Some \<lparr> current = Suc i, total = count (config cap) \<rparr>" by simp
  from Suc.hyps(1) [OF d Suc.prems(1) len inv le pr, of ?k'] step
  show ?case by simp
qed

lemma generateDataset_started:
  assumes "\<not> falsy (referenceImg st)" and "apiKey st \<noteq> []" and "selectedAngles st \<noteq> []"
  shows "generateDataset env st =
           itemLoop env st 0 0
             (st\<lparr> isProcessing := True, generatedItems := [],
                  progress := Some \<lparr> current = 0, total = count (config st) \<rparr> \<rparr>)"
proof -
  obtain r where "getGeminiAspectRatio (width' (config st)) (height' (config st)) = Inr r"
    by (simp add: getGeminiAspectRatio_def ratios_def Let_def)
  with assms show ?thesis by (simp add: generateDataset_def Let_def)
qed

text \<open>
  What does hold of a run. Take a run that starts (image, credential and angles present)
  and in which every awaited promise settles. Then the call returns; the collection
  holds exactly \<open>count\<close> items; the progress counter ends at \<open>count\<close> of \<open>count\<close>;
  every item is \<open>completed\<close> or \<open>failed\<close>; and each item is what its own synthesis and
  detection calls make it: \<open>failed\<close> with the error's message when one of them fails,
  \<open>completed\<close> with its box otherwise, whatever happened to the other items.
\<close>

lemma run_completes_every_item:
  assumes "\<not> falsy (referenceImg st)" and "apiKey st \<noteq> []" and "selectedAngles st \<noteq> []"
    and "\<forall>i < count (config st). itemSettles env st i"
  shows "outcome (generateDataset env st) = Returned \<and>
         length (generatedItems (final (generateDataset env st))) = count (config st) \<and>
         progress (final (generateDataset env st)) =
           Some \<lparr> current = count (config st), total = count (config st) \<rparr> \<and>
         (\<forall>i < count (config st).
            (status (generatedItems (final (generateDataset env st)) ! i) = completed \<or>
             status (generatedItems (final (generateDataset env st)) ! i) = failed) \<and>
            itemAsSpecified env st i (generatedItems (final (generateDataset env st)) ! i))"
proof -
  let ?st1 = "st\<lparr> isProcessing := True, generatedItems := [],
                   progress := Some \<lparr> current = 0, total = count (config st) \<rparr> \<rparr>"
  have run: "generateDataset env st = itemLoop env st 0 0 ?st1"
    using assms(1-3) by (rule generateDataset_started)
  have "outcome (itemLoop env st 0 0 ?st1) = Returned \<and>
         isProcessing (final (itemLoop env st 0 0 ?st1)) = False \<and>
         length (generatedItems (final (itemLoop env st 0 0 ?st1))) = count (config st) \<and>
         progress (final (itemLoop env st 0 0 ?st1)) =
           Some \<lparr> current = count (config st), total = count (config st) \<rparr> \<and>
         (\<forall>j < count (config st).
            (status (generatedItems (final (itemLoop env st 0 0 ?st1)) ! j) = completed \<or>
             status (generatedItems (final (itemLoop env st 0 0 ?st1)) ! j) = failed) \<and>
            itemAsSpecified env st j (generatedItems (final (itemLoop env st 0 0 ?st1)) ! j))"
    by (rule itemLoop_settled) (use assms(4) in simp_all)
  then show ?thesis unfolding run by simp
qed

lemma example_settles: "itemSettles exampleEnv exampleState i"
  by (simp add: itemSettles_def exampleEnv_def exampleState_def generateDroneView_def
        detectObjectBBox_def resizeImage_def truthy_data_def)

lemma example_verdict:
  "itemAsSpecified exampleEnv exampleState i x =
     (if i = 2 then status x = failed \<and> error x = Some ''503 Service Unavailable''
      else status x = completed \<and> error x = None \<and>
           bbox x = Some \<lparr> x_center = 0.4, y_center = 0.3, width = 0.4, height = 0.4 \<rparr>)"
  by (simp add: itemAsSpecified_def exampleEnv_def exampleState_def generateDroneView_def
        detectObjectBBox_def truthy_data_def convertGeminiBoxToYolo_def detectScale_def
        clamp01_def Let_def)

lemma example_started:
  "\<not> falsy (referenceImg exampleState) \<and> apiKey exampleState \<noteq> [] \<and>
   selectedAngles exampleState \<noteq> [] \<and> count (config exampleState) = 5"
  by (simp add: exampleState_def falsy_def initialSelectedAngles_def)

lemma example_run_length:
  "length (generatedItems (final (generateDataset exampleEnv exampleState))) = 5"
proof -
  let ?st1 = "exampleState\<lparr> isProcessing := True, generatedItems := [],
                   progress := Some \<lparr> current = 0, total = count (config exampleState) \<rparr> \<rparr>"
  have run: "generateDataset exampleEnv exampleState = itemLoop exampleEnv exampleState 0 0 ?st1"
    using example_started by (intro generateDataset_started) simp_all
  have "length (generatedItems (final (itemLoop exampleEnv exampleState 0 0 ?st1))) =
          count (config exampleState)"
    using itemLoop_settled [of exampleState exampleEnv ?st1 0 0] example_settles by simp
  then show ?thesis unfolding run using example_started by simp
qed

text \<open>
  The example of the specification: five items requested, synthesis failing for index 2
  only, every other call succeeding and every image decoding.
\<close>

lemma run_completes_example:
  "outcome (generateDataset exampleEnv exampleState) = Returned \<and>
   length (generatedItems (final (generateDataset exampleEnv exampleState))) = 5 \<and>
   progress (final (generateDataset exampleEnv exampleState)) = Some \<lparr> current = 5, total = 5 \<rparr> \<and>
   status (generatedItems (final (generateDataset exampleEnv exampleState)) ! 0) = completed \<and>
   status (generatedItems (final (generateDataset exampleEnv exampleState)) ! 1) = completed \<and>
   status (generatedItems (final (generateDataset exampleEnv exampleState)) ! 2) = failed \<and>
   error (generatedItems (final (generateDataset exampleEnv exampleState)) ! 2) =
     Some ''503 Service Unavailable'' \<and>
   status (generatedItems (final (generateDataset exampleEnv exampleState)) ! 3) = completed \<and>
   status (generatedItems (final (generateDataset exampleEnv exampleState)) ! 4) = completed"
proof -
  have a: "\<not> falsy (referenceImg exampleState)" by (simp add: exampleState_def falsy_def)
  have b: "apiKey exampleState \<noteq> []" by (simp add: exampleState_def)
  have c: "selectedAngles exampleState \<noteq> []"
    by (simp add: exampleState_def initialSelectedAngles_def)
  have d: "\<forall>i < count (config exampleState). itemSettles exampleEnv exampleState i"
    by (simp add: example_settles)
  have n: "count (config exampleState) = 5" by (simp add: exampleState_def)
  note r = run_completes_every_item [OF a b c d, unfolded n example_verdict]
  from r have all: "\<forall>i<5. (if i = 2 then status (generatedItems (final (generateDataset exampleEnv exampleState)) ! i) = failed \<and> error (generatedItems (final (generateDataset exampleEnv exampleState)) ! i) = Some ''503 Service Unavailable''
      else status (generatedItems (final (generateDataset exampleEnv exampleState)) ! i) = completed \<and> error (generatedItems (final (generateDataset exampleEnv exampleState)) ! i) = None \<and>
           bbox (generatedItems (final (generateDataset exampleEnv exampleState)) ! i) = Some \<lparr> x_center = 0.4, y_center = 0.3, width = 0.4, height = 0.4 \<rparr>)"
    by blast
  have i0: "status (generatedItems (final (generateDataset exampleEnv exampleState)) ! 0) = completed"
    using all [rule_format, of 0] by simp
  have i1: "status (generatedItems (final (generateDataset exampleEnv exampleState)) ! 1) = completed"
    using all [rule_format, of 1] by simp
  have i2: "status (generatedItems (final (generateDataset exampleEnv exampleState)) ! 2) = failed \<and>
            error (generatedItems (final (generateDataset exampleEnv exampleState)) ! 2) = Some ''503 Service Unavailable''"
    using all [rule_format, of 2] by simp
  have i3: "status (generatedItems (final (generateDataset exampleEnv exampleState)) ! 3) = completed"
    using all [rule_format, of 3] by simp
  have i4: "status (generatedItems (final (generateDataset exampleEnv exampleState)) ! 4) = completed"
    using all [rule_format, of 4] by simp
  from r i0 i1 i2 i3 i4 show ?thesis by blast
qed

text \<open>
  The hypothesis that promises settle cannot be dropped. When the image returned for the
  first item does not decode, \<open>resizeImage\<close> stays pending and so does the run.
\<close>

lemma undecodable_image_suspends_run:
  assumes "\<not> falsy (referenceImg st)" and "apiKey st \<noteq> []" and "selectedAngles st \<noteq> []"
    and "0 < count (config st)"
    and "generateDroneView (imageModel env 0) (apiKey st) = Resolved raw"
    and "\<not> decodes (browser env 0) raw"
  shows "outcome (generateDataset env st) = Suspended \<and>
         map status (generatedItems (final (generateDataset env st))) = [generating] \<and>
         progress (final (generateDataset env st)) =
           Some \<lparr> current = 0, total = count (config st) \<rparr> \<and>
         isProcessing (final (generateDataset env st))"
proof -
  let ?st1 = "st\<lparr> isProcessing := True, generatedItems := [],
                   progress := Some \<lparr> current = 0, total = count (config st) \<rparr> \<rparr>"
  let ?item = "fst (newItem env st 0 0)"
  have run: "generateDataset env st = itemLoop env st 0 0 ?st1"
    using assms(1-3) by (rule generateDataset_started)
  have "resizeImage (browser env 0) raw (width' (config st)) (height' (config st)) = Pending"
    using assms(6) by (simp add: resizeImage_def)
  then have "tryItem env st 0 [?item] = Inl [?item]"
    using assms(5) by (simp add: tryItem_def)
  then have "itemLoop env st 0 0 ?st1 =
               \<lparr> final = ?st1\<lparr> generatedItems := [?item] \<rparr>, alerts = [], outcome = Suspended \<rparr>"
    using assms(4) by (simp add: itemLoop.simps [of env st 0 0 ?st1] case_prod_beta Let_def)
  then show ?thesis
    unfolding run using newItem_fields [of env st 0 0] by simp
qed

text \<open>
  Claim C4 says that a run produces all its items, each in a final state, and that the
  progress counter reaches the requested count. The program breaks this on an image it
  cannot decode. In the world \<open>undecodableEnv\<close> both models answer every call, and for
  the first item synthesis returns an image and detection would return a box; but the
  browser does not decode the image, \<open>resizeImage\<close> never settles, and the run of five
  items stays suspended in its first iteration: one item, still \<open>generating\<close>, progress
  0 of 5, the processing flag still set. The item is neither \<open>completed\<close> nor \<open>failed\<close>
  and no error is recorded on it.
\<close>

theorem undecodable_image_breaks_run:
  "generateDroneView (imageModel undecodableEnv 0) (apiKey exampleState) =
     Resolved ''data:image/jpeg;base64,QUJD'' \<and>
   detectObjectBBox (detectionModel undecodableEnv 0) (apiKey exampleState) =
     Resolved \<lparr> ymin = 100, xmin = 200, ymax = 500, xmax = 600 \<rparr> \<and>
   count (config exampleState) = 5 \<and>
   outcome (generateDataset undecodableEnv exampleState) = Suspended \<and>
   map status (generatedItems (final (generateDataset undecodableEnv exampleState))) =
     [generating] \<and>
   map error (generatedItems (final (generateDataset undecodableEnv exampleState))) =
     [None] \<and>
   progress (final (generateDataset undecodableEnv exampleState)) =
     Some \<lparr> current = 0, total = 5 \<rparr> \<and>
   isProcessing (final (generateDataset undecodableEnv exampleState))"
proof -
  have gen: "generateDroneView (imageModel undecodableEnv 0) (apiKey exampleState) =
               Resolved ''data:image/jpeg;base64,QUJD''"
    by (simp add: undecodableEnv_def exampleEnv_def exampleState_def generateDroneView_def
          truthy_data_def)
  have det: "detectObjectBBox (detectionModel undecodableEnv 0) (apiKey exampleState) =
               Resolved \<lparr> ymin = 100, xmin = 200, ymax = 500, xmax = 600 \<rparr>"
    by (simp add: undecodableEnv_def exampleEnv_def exampleState_def detectObjectBBox_def)
  have nodec: "\<not> decodes (browser undecodableEnv 0) ''data:image/jpeg;base64,QUJD''"
    by (simp add: undecodableEnv_def)
  have a: "\<not> falsy (referenceImg exampleState)" "apiKey exampleState \<noteq> []"
    "selectedAngles exampleState \<noteq> []" "0 < count (config exampleState)"
    "count (config exampleState) = 5"
    using example_started by simp_all
  let ?st1 = "exampleState\<lparr> isProcessing := True, generatedItems := [],
                   progress := Some \<lparr> current = 0, total = count (config exampleState) \<rparr> \<rparr>"
  let ?item = "fst (newItem undecodableEnv exampleState 0 0)"
  have run: "generateDataset undecodableEnv exampleState =
               itemLoop undecodableEnv exampleState 0 0 ?st1"
    using a(1-3) by (rule generateDataset_started)
  have "resizeImage (browser undecodableEnv 0) ''data:image/jpeg;base64,QUJD''
          (width' (config exampleState)) (height' (config exampleState)) = Pending"
    using nodec by (simp add: resizeImage_def)
  then have "tryItem undecodableEnv exampleState 0 [?item] = Inl [?item]"
    using gen by (simp add: tryItem_def)
  then have "itemLoop undecodableEnv exampleState 0 0 ?st1 =
               \<lparr> final = ?st1\<lparr> generatedItems := [?item] \<rparr>, alerts = [],
                 outcome = Suspended \<rparr>"
    using a(4)
    by (simp add: itemLoop.simps [of undecodableEnv exampleState 0 0 ?st1] case_prod_beta
          Let_def)
  then have "outcome (generateDataset undecodableEnv exampleState) = Suspended \<and>
             map status (generatedItems (final (generateDataset undecodableEnv exampleState))) =
               [generating] \<and>
             map error (generatedItems (final (generateDataset undecodableEnv exampleState))) =
               [None] \<and>
             progress (final (generateDataset undecodableEnv exampleState)) =
               Some \<lparr> current = 0, total = 5 \<rparr> \<and>
             isProcessing (final (generateDataset undecodableEnv exampleState))"
    unfolding run using newItem_fields [of undecodableEnv exampleState 0 0] a(5) by simp
  with gen det a(5) show ?thesis by (intro conjI) simp_all
qed

section \<open>Properties of the resolved camera angle\<close>

lemma sample_member:
  assumes "0 \<le> r" and "r < 1" and "arr \<noteq> []"
  shows "\<exists>a. sample r arr = Some a \<and> a \<in> set arr"
proof -
  let ?n = "length arr"
  have pos: "0 < real ?n" using assms(3) by simp
  have "0 \<le> r * real ?n" using assms(1) by simp
  then have lo: "0 \<le> \<lfloor>r * real ?n\<rfloor>" by simp
  have "r * real ?n < real ?n" using assms(2) pos by simp
  then have hi: "\<lfloor>r * real ?n\<rfloor> < int ?n" by (simp add: floor_less_iff)
  from lo hi have "nat \<lfloor>r * real ?n\<rfloor> < ?n" by (simp only: nat_less_iff)
  then have "arr ! nat \<lfloor>r * real ?n\<rfloor> \<in> set arr" by (rule nth_mem)
  with lo hi show ?thesis by (simp add: sample_def Let_def)
qed

lemma newItem_angle:
  assumes "\<forall>k. 0 \<le> mathRandom env k \<and> mathRandom env k < 1" and "selectedAngles cap \<noteq> []"
  shows "\<exists>a. angle (metadata (fst (newItem env cap i k))) = Some a \<and> a \<in> set (selectedAngles cap)"
proof -
  have "\<exists>k4. angle (metadata (fst (newItem env cap i k))) =
                sample (mathRandom env k4) (selectedAngles cap)"
    by (auto simp add: newItem_def Let_def split: prod.splits)
  then obtain k4 where "angle (metadata (fst (newItem env cap i k))) =
                          sample (mathRandom env k4) (selectedAngles cap)" ..
  moreover have "\<exists>a. sample (mathRandom env k4) (selectedAngles cap) = Some a \<and>
                      a \<in> set (selectedAngles cap)"
    using assms by (intro sample_member) simp_all
  ultimately show ?thesis by simp
qed

lemma updateItem_metadata:
  "(\<And>x. metadata (f x) = metadata x) \<Longrightarrow> map metadata (updateItem i f xs) = map metadata xs"
  by (simp add: updateItem_def)

lemma failItem_metadata: "map metadata (failItem i e xs) = map metadata xs"
  by (simp add: failItem_def updateItem_metadata)

lemma tryItem_metadata:
  "tryItem env cap i items = Inl xs \<or> tryItem env cap i items = Inr xs \<Longrightarrow>
   map metadata xs = map metadata items"
  by (auto simp add: tryItem_def Let_def failItem_metadata updateItem_metadata
           split: promise.splits)

lemma itemLoop_angles:
  assumes "\<forall>k. 0 \<le> mathRandom env k \<and> mathRandom env k < 1" and "selectedAngles cap \<noteq> []"
    and "\<forall>m \<in> set (map metadata (generatedItems s)). \<exists>a. angle m = Some a \<and> a \<in> set (selectedAngles cap)"
  shows "\<forall>m \<in> set (map metadata (generatedItems (final (itemLoop env cap i k s)))).
           \<exists>a. angle m = Some a \<and> a \<in> set (selectedAngles cap)"
  using assms(3)
proof (induction "count (config cap) - i" arbitrary: i k s)
  case 0
  then have "\<not> i < count (config cap)" by simp
  then have "itemLoop env cap i k s =
               \<lparr> final = s\<lparr> isProcessing := False \<rparr>, alerts = [], outcome = Returned \<rparr>"
    by (subst itemLoop.simps) simp
  with "0.prems" show ?case by simp
next
  case (Suc d)
  let ?item = "fst (newItem env cap i k)"
  let ?k' = "snd (newItem env cap i k)"
  let ?items = "generatedItems s @ [?item]"
  from Suc.hyps(2) have lt: "i < count (config cap)" by simp
  have d: "d = count (config cap) - Suc i" using Suc.hyps(2) by simp
  have ok: "\<forall>m \<in> set (map metadata ?items). \<exists>a. angle m = Some a \<and> a \<in> set (selectedAngles cap)"
    using Suc.prems newItem_angle [OF assms(1,2), of i k] by auto
  show ?case
  proof (cases "tryItem env cap i ?items")
    case (Inl xs)
    then have "map metadata xs = map metadata ?items"
      using tryItem_metadata [of env cap i ?items xs] by blast
    moreover have "itemLoop env cap i k s =
                     \<lparr> final = s\<lparr> generatedItems := xs \<rparr>, alerts = [], outcome = Suspended \<rparr>"
      using lt Inl by (simp add: itemLoop.simps [of env cap i k s] case_prod_beta Let_def)
    ultimately show ?thesis using ok by simp
  next
    case (Inr xs)
    let ?s' = "s\<lparr> generatedItems := xs,
                    progress := Some \<lparr> current = i + 1, total = count (config cap) \<rparr> \<rparr>"
    have "map metadata xs = map metadata ?items"
      using Inr tryItem_metadata [of env cap i ?items xs] by blast
    with ok have ok': "\<forall>m \<in> set (map metadata (generatedItems ?s')).
                        \<exists>a. angle m = Some a \<and> a \<in> set (selectedAngles cap)"
      by simp
    have "itemLoop env cap i k s = itemLoop env cap (Suc i) ?k' ?s'"
      using lt Inr by (simp add: itemLoop.simps [of env cap i k s] case_prod_beta Let_def)
    with Suc.hyps(1) [OF d ok', of ?k'] show ?thesis by simp
  qed
qed

lemma toggleAngle_subset:
  "a \<in> set ANGLE_OPTIONS \<Longrightarrow> set prev \<subseteq> set ANGLE_OPTIONS \<Longrightarrow>
   set (toggleAngle a prev) \<subseteq> set ANGLE_OPTIONS"
  by (auto simp add: toggleAngle_def)

lemma toggled_selection_subset:
  "set clicks \<subseteq> set ANGLE_OPTIONS \<Longrightarrow>
   set (foldl (\<lambda>sel a. toggleAngle a sel) initialSelectedAngles clicks) \<subseteq> set ANGLE_OPTIONS"
proof (induction clicks rule: rev_induct)
  case Nil
  show ?case by (simp add: initialSelectedAngles_def ANGLE_OPTIONS_def)
next
  case (snoc a clicks)
  then show ?case by (simp add: toggleAngle_subset)
qed

lemma Random_not_an_angle: "''Random'' \<notin> set ANGLE_OPTIONS"
  by (simp add: ANGLE_OPTIONS_def)

lemma toggled_selection_never_Random:
  "set clicks \<subseteq> set ANGLE_OPTIONS \<Longrightarrow>
   ''Random'' \<notin> set (foldl (\<lambda>sel a. toggleAngle a sel) initialSelectedAngles clicks)"
  using toggled_selection_subset [of clicks] Random_not_an_angle by blast

text \<open>
  The selection of angles is only ever changed by \<open>toggleAngle\<close> on one of the
  \<open>ANGLE_OPTIONS\<close>, starting from the initial selection, so it never holds the word
  \<open>Random\<close> (lemma \<open>toggled_selection_never_Random\<close>).

  Claim C9. In a run that starts with a non-empty selection of angles not containing
  \<open>Random\<close>, whatever values \<open>Math.random()\<close> returns in its range from 0 (included) to
  1 (excluded), every item of the collection carries a resolved angle, that angle is one
  of the selected ones, and it is not \<open>Random\<close>. This holds for a run that returns and
  for one left suspended alike.
\<close>

theorem resolved_angle_from_selection:
  assumes "\<not> falsy (referenceImg st)" and "apiKey st \<noteq> []" and "selectedAngles st \<noteq> []"
    and "''Random'' \<notin> set (selectedAngles st)"
    and "\<forall>k. 0 \<le> mathRandom env k \<and> mathRandom env k < 1"
  shows "\<forall>item \<in> set (generatedItems (final (generateDataset env st))).
           \<exists>a. angle (metadata item) = Some a \<and> a \<in> set (selectedAngles st) \<and> a \<noteq> ''Random''"
proof -
  let ?st1 = "st\<lparr> isProcessing := True, generatedItems := [],
                   progress := Some \<lparr> current = 0, total = count (config st) \<rparr> \<rparr>"
  have run: "generateDataset env st = itemLoop env st 0 0 ?st1"
    using assms(1-3) by (rule generateDataset_started)
  have "\<forall>m \<in> set (map metadata (generatedItems (final (itemLoop env st 0 0 ?st1)))).
           \<exists>a. angle m = Some a \<and> a \<in> set (selectedAngles st)"
    by (rule itemLoop_angles [OF assms(5,3)]) simp
  then have "\<forall>item \<in> set (generatedItems (final (generateDataset env st))).
           \<exists>a. angle (metadata item) = Some a \<and> a \<in> set (selectedAngles st)"
    unfolding run by simp
  with assms(4) show ?thesis by metis
qed

theorem resolved_angle_from_selection_witness:
  "angle (metadata (generatedItems (final (generateDataset exampleEnv exampleState)) ! 0)) =
     Some (''Standard (45'' @ degree @ '')'') \<and>
   angle (metadata (generatedItems (final (generateDataset exampleEnv exampleState)) ! 4)) =
     Some (''Standard (45'' @ degree @ '')'')"
proof -
  let ?items = "generatedItems (final (generateDataset exampleEnv exampleState))"
  have a: "\<not> falsy (referenceImg exampleState)" using example_started by simp
  have b: "apiKey exampleState \<noteq> []" using example_started by simp
  have s: "selectedAngles exampleState = [''Standard (45'' @ degree @ '')'']"
    by (simp add: exampleState_def initialSelectedAngles_def)
  have c: "selectedAngles exampleState \<noteq> []" by (simp add: s)
  have d: "''Random'' \<notin> set (selectedAngles exampleState)" by (simp add: s)
  have e: "\<forall>k. 0 \<le> mathRandom exampleEnv k \<and> mathRandom exampleEnv k < 1"
    by (simp add: exampleEnv_def)
  from resolved_angle_from_selection [OF a b c d e]
  have all: "\<forall>item \<in> set ?items. angle (metadata item) = Some (''Standard (45'' @ degree @ '')'')"
    unfolding s by simp
  have "?items ! 0 \<in> set ?items" and "?items ! 4 \<in> set ?items"
    using example_run_length by simp_all
  with all show ?thesis by blast
qed

end
